theory Spec2Isabelle
  imports Complex_Main "HOL-Library.Word" "HOL-Library.Monad_Syntax"
begin

unbundle bit_operations_syntax

section \<open>The auction program of \<^verbatim>\<open>main.c\<close>\<close>

text \<open>
  The program is one C file: a frame loop that dispatches on the current screen, seven
  text input boxes, a table of at most ten users kept in a text file, and a table of
  three auction items. The model follows the file top down. Conventions:
  \<^item> a \<^verbatim>\<open>const char*\<close> argument is the list of characters before its terminator;
    a \<^verbatim>\<open>char[N]\<close> buffer whose bytes behind the terminator matter (the text of an
    input box) is the list of all its \<open>N\<close> bytes;
  \<^item> \<^verbatim>\<open>unsigned int\<close> is \<open>32 word\<close>, \<^verbatim>\<open>int\<close> is \<open>int\<close> (no
    \<^verbatim>\<open>int\<close> of the program leaves the range of a few thousand);
  \<^item> \<^verbatim>\<open>float\<close> is IEEE binary32, modelled by its value: a rational, the negative
    zero, an infinity or a NaN with its sign, with results rounded to nearest, ties to
    even;
  \<^item> a function returns \<open>None\<close> where the C program would read or write outside an
    array (undefined behaviour).
\<close>

subsection \<open>Constants\<close>

definition MAX_ITEMS :: int where "MAX_ITEMS = 5"
definition MAX_USERS :: int where "MAX_USERS = 10"
definition MAX_NAME_LENGTH :: nat where "MAX_NAME_LENGTH = 32"
definition MAX_BIDDER_LENGTH :: nat where "MAX_BIDDER_LENGTH = 32"
definition MAX_INPUT_CHARS :: int where "MAX_INPUT_CHARS = 20"

subsection \<open>Floats\<close>

text \<open>
  A \<^verbatim>\<open>float\<close> by its value. \<open>f32\<close> rounds a rational to the nearest binary32
  value, ties to even. \<open>binade\<close> finds the exponent \<open>e\<close> of the leading bit of a positive
  number (\<open>2 ^ e \<le> a < 2 ^ (e + 1)\<close>) by halving or doubling, at most 300 times, which is
  beyond the range of the format in both directions. The exponent is at least \<open>-126\<close>,
  where the subnormal numbers begin; the unit in the last place is \<open>2 ^ (e - 23)\<close>; and
  a result of \<open>2 ^ 128\<close> or more overflows to an infinity. \<open>Finite 0\<close> is the positive
  zero and \<open>NegZero\<close> the negative one, \<open>NaN\<close> is a NaN with a clear sign bit and
  \<open>NegNaN\<close> one with the sign bit set: the two zeros compare equal and a NaN compares
  with nothing, but \<^verbatim>\<open>%.2f\<close> prints the sign of a zero and of a NaN.
\<close>

datatype cfloat = Finite rat | NegZero | PosInf | NegInf | NaN | NegNaN

definition pow2 :: "int \<Rightarrow> rat" where
  "pow2 e = (if 0 \<le> e then 2 ^ nat e else 1 / 2 ^ nat (- e))"

fun binade :: "nat \<Rightarrow> rat \<Rightarrow> int" where
  "binade 0 a = 0"
| "binade (Suc k) a =
     (if 2 \<le> a then binade k (a / 2) + 1
      else if a < 1 then binade k (a * 2) - 1
      else 0)"

definition round_even :: "rat \<Rightarrow> int" where
  "round_even q =
     (let n = \<lfloor>q\<rfloor>; r = q - of_int n
      in if r < 1 / 2 \<or> (r = 1 / 2 \<and> even n) then n else n + 1)"

definition f32 :: "rat \<Rightarrow> cfloat" where
  "f32 v =
     (if v = 0 then Finite 0
      else
        (let a = \<bar>v\<bar>;
             u = pow2 (max (- 126) (binade 300 a) - 23);
             r = of_int (round_even (a / u)) * u
         in if pow2 128 \<le> r then (if 0 < v then PosInf else NegInf)
            else if v < 0 then (if r = 0 then NegZero else Finite (- r))
            else Finite r))"

text \<open>A float with its sign bit flipped.\<close>

fun fneg :: "cfloat \<Rightarrow> cfloat" where
  "fneg (Finite v) = (if v = 0 then NegZero else Finite (- v))"
| "fneg NegZero = Finite 0"
| "fneg PosInf = NegInf"
| "fneg NegInf = PosInf"
| "fneg NaN = NegNaN"
| "fneg NegNaN = NaN"

text \<open>Whether a float is a NaN.\<close>

fun is_nan :: "cfloat \<Rightarrow> bool" where
  "is_nan NaN = True"
| "is_nan NegNaN = True"
| "is_nan a = False"

text \<open>The comparisons \<^verbatim>\<open><=\<close> and \<^verbatim>\<open>>\<close> of C: false whenever an operand is a NaN;
  the two zeros are equal.\<close>

fun fle :: "cfloat \<Rightarrow> cfloat \<Rightarrow> bool" where
  "fle NaN b = False"
| "fle NegNaN b = False"
| "fle a NaN = False"
| "fle a NegNaN = False"
| "fle NegInf b = True"
| "fle a PosInf = True"
| "fle (Finite p) (Finite q) = (p \<le> q)"
| "fle (Finite p) NegZero = (p \<le> 0)"
| "fle NegZero (Finite q) = (0 \<le> q)"
| "fle NegZero NegZero = True"
| "fle PosInf b = False"
| "fle a NegInf = False"

fun fgt :: "cfloat \<Rightarrow> cfloat \<Rightarrow> bool" where
  "fgt NaN b = False"
| "fgt NegNaN b = False"
| "fgt a NaN = False"
| "fgt a NegNaN = False"
| "fgt (Finite p) (Finite q) = (p > q)"
| "fgt (Finite p) NegZero = (p > 0)"
| "fgt NegZero (Finite q) = (0 > q)"
| "fgt NegZero NegZero = False"
| "fgt PosInf PosInf = False"
| "fgt PosInf b = True"
| "fgt NegInf b = False"
| "fgt a NegInf = True"
| "fgt a PosInf = False"

text \<open>\<^verbatim>\<open>a - b\<close> on floats. A NaN operand is the result; the difference of two equal
  infinities is a NaN, whose sign the standard leaves open (the program subtracts only
  from the message timer, which it compares and never prints). A difference that is
  exactly zero is the positive zero, except \<open>-0 - +0\<close>.\<close>

fun fsub :: "cfloat \<Rightarrow> cfloat \<Rightarrow> cfloat" where
  "fsub NaN b = NaN"
| "fsub NegNaN b = NegNaN"
| "fsub a NaN = NaN"
| "fsub a NegNaN = NegNaN"
| "fsub PosInf PosInf = NaN"
| "fsub NegInf NegInf = NaN"
| "fsub PosInf b = PosInf"
| "fsub NegInf b = NegInf"
| "fsub a PosInf = NegInf"
| "fsub a NegInf = PosInf"
| "fsub (Finite p) (Finite q) = f32 (p - q)"
| "fsub (Finite p) NegZero = f32 p"
| "fsub NegZero (Finite q) = (if q = 0 then NegZero else f32 (- q))"
| "fsub NegZero NegZero = Finite 0"

subsection \<open>The C library on strings\<close>

definition isspace :: "char \<Rightarrow> bool" where
  "isspace c = (of_char c = (32::int) \<or> (9 \<le> (of_char c :: int) \<and> (of_char c :: int) \<le> 13))"

definition isdigit :: "char \<Rightarrow> bool" where
  "isdigit c = (48 \<le> (of_char c :: int) \<and> (of_char c :: int) \<le> 57)"

definition tolower :: "char \<Rightarrow> char" where
  "tolower c = (if 65 \<le> (of_char c :: int) \<and> (of_char c :: int) \<le> 90
                then char_of (of_char c + (32::int)) else c)"

definition isxdigit :: "char \<Rightarrow> bool" where
  "isxdigit c =
     (isdigit c \<or> (97 \<le> (of_char (tolower c) :: int) \<and> (of_char (tolower c) :: int) \<le> 102))"

definition digit_val :: "char \<Rightarrow> int" where
  "digit_val c = (if isdigit c then of_char c - 48 else of_char (tolower c) - 87)"

definition digits_val :: "int \<Rightarrow> string \<Rightarrow> int" where
  "digits_val base ds = foldl (\<lambda>a c. a * base + digit_val c) 0 ds"

text \<open>
  \<^verbatim>\<open>strtof(nptr, NULL)\<close> as the C standard describes it (C11, 7.22.1.3), in the C
  locale, which the program never changes: white space is skipped, then the longest
  prefix that is an optional sign followed by INF, NAN (in any case), a hexadecimal or a
  decimal floating constant is converted and correctly rounded, and negated if the sign
  is a minus; with no such prefix the result is zero. Where the characters after the
  number stop is not returned, since the program passes \<^verbatim>\<open>NULL\<close> for the end
  pointer.
\<close>

definition scan_exponent :: "char \<Rightarrow> string \<Rightarrow> int" where
  "scan_exponent mark s =
     (case s of
        [] \<Rightarrow> 0
      | c # t \<Rightarrow>
          if tolower c \<noteq> mark then 0
          else (let neg = (t \<noteq> [] \<and> hd t = CHR ''-'');
                    d = (if t \<noteq> [] \<and> (hd t = CHR ''-'' \<or> hd t = CHR ''+'') then tl t else t);
                    ds = takeWhile isdigit d
                in if ds = [] then 0
                   else if neg then - digits_val 10 ds else digits_val 10 ds))"

definition scale :: "int \<Rightarrow> int \<Rightarrow> rat" where
  "scale base e = (if 0 \<le> e then of_int base ^ nat e else 1 / of_int base ^ nat (- e))"

definition scan_number :: "(char \<Rightarrow> bool) \<Rightarrow> int \<Rightarrow> int \<Rightarrow> char \<Rightarrow> string \<Rightarrow> rat option" where
  "scan_number isdig base ebase mark s =
     (let ip = takeWhile isdig s;
          r1 = dropWhile isdig s;
          fp = (case r1 of [] \<Rightarrow> [] | c # t \<Rightarrow> if c = CHR ''.'' then takeWhile isdig t else []);
          r2 = (case r1 of [] \<Rightarrow> [] | c # t \<Rightarrow> if c = CHR ''.'' then dropWhile isdig t else r1)
      in if ip = [] \<and> fp = [] then None
         else Some (of_int (digits_val base (ip @ fp))
                    * scale base (- int (length fp))
                    * scale ebase (scan_exponent mark r2)))"

definition scan_hex :: "string \<Rightarrow> rat option" where
  "scan_hex s =
     (case s of
        z # xc # t \<Rightarrow>
          if z = CHR ''0'' \<and> tolower xc = CHR ''x'' then scan_number isxdigit 16 2 (CHR ''p'') t
          else None
      | _ \<Rightarrow> None)"

definition strtof :: "string \<Rightarrow> cfloat" where
  "strtof nptr =
     (let s = dropWhile isspace nptr;
          neg = (s \<noteq> [] \<and> hd s = CHR ''-'');
          t = (if s \<noteq> [] \<and> (hd s = CHR ''-'' \<or> hd s = CHR ''+'') then tl s else s)
      in if map tolower (take 3 t) = ''inf'' then (if neg then NegInf else PosInf)
         else if map tolower (take 3 t) = ''nan'' then (if neg then NegNaN else NaN)
         else (case scan_hex t of
                 Some v \<Rightarrow> (if neg then fneg (f32 v) else f32 v)
               | None \<Rightarrow>
                   (case scan_number isdigit 10 10 (CHR ''e'') t of
                      Some v \<Rightarrow> (if neg then fneg (f32 v) else f32 v)
                    | None \<Rightarrow> Finite 0)))"

text \<open>
  Reading a buffer as a C string: the bytes before the first NUL. With no NUL in the
  buffer the C program would read past its end.
\<close>

definition cstr :: "char list \<Rightarrow> string option" where
  "cstr buf = (if CHR 0x00 \<in> set buf then Some (takeWhile (\<lambda>c. c \<noteq> CHR 0x00) buf) else None)"

text \<open>\<^verbatim>\<open>strcpy\<close> into a \<^verbatim>\<open>char[cap]\<close> that is only ever read as a C string.\<close>

definition strcpy :: "nat \<Rightarrow> string \<Rightarrow> string option" where
  "strcpy cap src = (if length src < cap then Some src else None)"

text \<open>The decimal digits of a number that is not negative, as \<^verbatim>\<open>%u\<close> prints them.\<close>

function utoa :: "int \<Rightarrow> string" where
  "utoa n = (if n < 10 then [char_of (48 + n)] else utoa (n div 10) @ [char_of (48 + n mod 10)])"
  by pat_completeness auto
termination
  by (relation "measure nat") auto

declare utoa.simps [simp del]

text \<open>
  The conversion \<^verbatim>\<open>%.2f\<close> of the \<^verbatim>\<open>printf\<close> family (C11, 7.21.6.1). The
  \<^verbatim>\<open>float\<close> argument is passed as a \<^verbatim>\<open>double\<close> of the same value and printed with
  two digits after the point, correctly rounded (ties to even, on the exact value, as
  glibc does): a minus sign if the sign bit is set, the digits of the integer part, the
  point and two digits. An infinity is printed as \<^verbatim>\<open>inf\<close> and a NaN as \<^verbatim>\<open>nan\<close>,
  with the sign.
\<close>

definition conv_2f :: "cfloat \<Rightarrow> string" where
  "conv_2f x =
     (case x of
        Finite v \<Rightarrow>
          (let n = round_even (\<bar>v\<bar> * 100)
           in (if v < 0 then ''-'' else []) @ utoa (n div 100) @ ''.''
              @ [char_of (48 + n mod 100 div 10), char_of (48 + n mod 10)])
      | NegZero \<Rightarrow> ''-0.00''
      | PosInf \<Rightarrow> ''inf''
      | NegInf \<Rightarrow> ''-inf''
      | NaN \<Rightarrow> ''nan''
      | NegNaN \<Rightarrow> ''-nan'')"

text \<open>
  \<^verbatim>\<open>TextFormat(text, ...)\<close> of the window library formats into a buffer of 1024 bytes
  with \<^verbatim>\<open>vsnprintf\<close>, which never writes past the buffer, and returns the buffer. The
  formats of the program use the conversions \<^verbatim>\<open>%s\<close> and \<^verbatim>\<open>%.2f\<close> and no other
  percent sign; their results are at most 132 characters long, far from the end of the
  buffer. An argument of the wrong kind, or none, is undefined.
\<close>

datatype fmt_arg = ArgF cfloat | ArgS string

fun TextFormat :: "string \<Rightarrow> fmt_arg list \<Rightarrow> string option" where
  "TextFormat [] args = Some []"
| "TextFormat (c # fmt) args =
     (if c = CHR ''%'' \<and> take 1 fmt = ''s'' then
        (case args of
           ArgS v # rest \<Rightarrow> map_option ((@) v) (TextFormat (drop 1 fmt) rest)
         | _ \<Rightarrow> None)
      else if c = CHR ''%'' \<and> take 3 fmt = ''.2f'' then
        (case args of
           ArgF x # rest \<Rightarrow> map_option ((@) (conv_2f x)) (TextFormat (drop 3 fmt) rest)
         | _ \<Rightarrow> None)
      else if c = CHR ''%'' then None
      else map_option ((#) c) (TextFormat fmt args))"

subsection \<open>Password hash\<close>

text \<open>
  \<^verbatim>\<open>int c; while ((c = *password++)) hash = ((hash << 5) + hash) + c;\<close>
  A plain \<^verbatim>\<open>char\<close> is converted to \<^verbatim>\<open>int\<close>; on the desktop ABIs with a signed
  \<^verbatim>\<open>char\<close> a byte above 127 becomes negative. Bytes up to 127, the only ones an input
  box lets through, have the same value under either signedness.
\<close>

definition char_to_int :: "char \<Rightarrow> int" where
  "char_to_int c = (if of_char c < (128::nat) then int (of_char c) else int (of_char c) - 256)"

fun HashPassword_loop :: "32 word \<Rightarrow> string \<Rightarrow> 32 word" where
  "HashPassword_loop hash [] = hash"
| "HashPassword_loop hash (c # password) =
     HashPassword_loop ((push_bit 5 hash + hash) + word_of_int (char_to_int c)) password"

definition HashPassword :: "string \<Rightarrow> 32 word" where
  "HashPassword password = HashPassword_loop 5381 password"

text \<open>The hash as the specification words it: seed, then \<open>hash * 33 + c\<close> for each
  byte in order, in arithmetic modulo \<open>2 ^ 32\<close>.\<close>

definition rolling_hash_spec :: "string \<Rightarrow> int" where
  "rolling_hash_spec p = foldl (\<lambda>hash c. (hash * 33 + char_to_int c) mod 2 ^ 32) 5381 p"

subsection \<open>Data\<close>

datatype AppScreen =
    SCREEN_AUTH_MENU | SCREEN_SIGN_IN | SCREEN_SIGN_UP
  | SCREEN_ITEM_LIST | SCREEN_ITEM_DETAILS | SCREEN_PLACE_BID

record AuctionItem =
  name :: string
  description :: string
  currentBid :: cfloat
  highestBidder :: string
  auctionClosed :: bool

text \<open>Screen coordinates are finite floats; every rectangle of the program has small
  integer coordinates, so the sums in the hit test are exact.\<close>

datatype Rectangle = Rectangle (rec_x: rat) (rec_y: rat) (rec_width: rat) (rec_height: rat)

type_synonym Vector2 = "rat \<times> rat"

type_synonym Color = "nat \<times> nat \<times> nat \<times> nat"

definition DARKGRAY_CUSTOM :: Color where "DARKGRAY_CUSTOM = (50, 50, 50, 255)"
definition BLUE_HIGHLIGHT :: Color where "BLUE_HIGHLIGHT = (0, 120, 200, 255)"

record InputBox =
  rect :: Rectangle
  textbuf :: "char list"
  letterCount :: int
  active :: bool
  borderColor :: Color
  isPassword :: bool

record User =
  username :: string
  hashedPassword :: "32 word"

text \<open>The globals of the program, and the users file on disk (\<open>None\<close>: no file).
  \<open>users\<close> holds the entries \<^verbatim>\<open>users[0 .. userCount - 1]\<close>, so \<^verbatim>\<open>userCount\<close> is its
  length; \<open>items\<close> holds all \<^verbatim>\<open>MAX_ITEMS\<close> entries of the array.\<close>

record app_state =
  items :: "AuctionItem list"
  itemCount :: int
  selectedItemIndex :: int
  currentScreen :: AppScreen
  users :: "User list"
  loggedInUsername :: string
  bidAmountInput :: InputBox
  bidderNameInput :: InputBox
  signInUsernameInput :: InputBox
  signInPasswordInput :: InputBox
  signUpUsernameInput :: InputBox
  signUpPasswordInput :: InputBox
  signUpConfirmPasswordInput :: InputBox
  uiMessage :: string
  uiMessageTimer :: cfloat
  users_file :: "string option"

text \<open>What the window library and the file system report during one frame: the frame
  time, the mouse, the characters typed (served one by one by \<^verbatim>\<open>GetCharPressed\<close>),
  the two keys the program asks about, the phase of the blinking cursor, and whether
  \<^verbatim>\<open>fopen(USERS_FILE, "w")\<close> succeeds.\<close>

record frame_input =
  GetFrameTime :: cfloat
  GetMousePosition :: Vector2
  IsMouseButtonPressed :: bool
  char_queue :: "int list"
  KEY_BACKSPACE_pressed :: bool
  KEY_ENTER_pressed :: bool
  cursor_shown :: bool
  fopen_w_ok :: bool

definition screenWidth :: int where "screenWidth = 800"
definition screenHeight :: int where "screenHeight = 600"
definition UI_MESSAGE_DURATION :: cfloat where "UI_MESSAGE_DURATION = f32 3"

subsection \<open>Input boxes\<close>

text \<open>The hit test of the window library (raylib): the left and upper edges belong to
  the rectangle, the right and lower edges do not. No rectangle of the program touches
  another, so no property below depends on the edges.\<close>

definition CheckCollisionPointRec :: "Vector2 \<Rightarrow> Rectangle \<Rightarrow> bool" where
  "CheckCollisionPointRec point r =
     (fst point \<ge> rec_x r \<and> fst point < rec_x r + rec_width r
      \<and> snd point \<ge> rec_y r \<and> snd point < rec_y r + rec_height r)"

definition IsMouseOver :: "frame_input \<Rightarrow> Rectangle \<Rightarrow> bool" where
  "IsMouseOver inp r = CheckCollisionPointRec (GetMousePosition inp) r"

text \<open>\<^verbatim>\<open>box->text[i] = c\<close>, on the array of \<^verbatim>\<open>MAX_INPUT_CHARS + 1\<close> bytes.\<close>

definition store_text :: "InputBox \<Rightarrow> int \<Rightarrow> char \<Rightarrow> InputBox option" where
  "store_text box i c =
     (if 0 \<le> i \<and> i < MAX_INPUT_CHARS + 1 \<and> nat i < length (textbuf box)
      then Some (box\<lparr>textbuf := (textbuf box)[nat i := c]\<rparr>) else None)"

text \<open>The loop \<^verbatim>\<open>while (key > 0) { ...; key = GetCharPressed(); }\<close>: an empty queue
  gives the key 0.\<close>

fun read_chars :: "int list \<Rightarrow> InputBox \<Rightarrow> (InputBox \<times> int list) option" where
  "read_chars [] box = Some (box, [])"
| "read_chars (key # queue) box =
     (if key > 0 then
        (if (key \<ge> 32 \<and> key \<le> 125) \<and> letterCount box < MAX_INPUT_CHARS then
           do {
             box1 \<leftarrow> store_text box (letterCount box) (char_of key);
             read_chars queue (box1\<lparr>letterCount := letterCount box1 + 1\<rparr>)
           }
         else read_chars queue box)
      else Some (box, queue))"

definition UpdateInputBox ::
  "frame_input \<Rightarrow> int list \<Rightarrow> InputBox \<Rightarrow> (InputBox \<times> int list) option" where
  "UpdateInputBox inp queue box =
     (let box1 =
            (if IsMouseButtonPressed inp then
               (if CheckCollisionPointRec (GetMousePosition inp) (rect box)
                then box\<lparr>active := True, borderColor := BLUE_HIGHLIGHT\<rparr>
                else box\<lparr>active := False, borderColor := DARKGRAY_CUSTOM\<rparr>)
             else box)
      in if active box1 then
           do {
             (box2, queue') \<leftarrow> read_chars queue box1;
             box3 \<leftarrow>
               (if KEY_BACKSPACE_pressed inp then
                  (if letterCount box2 > 0 then
                     store_text (box2\<lparr>letterCount := letterCount box2 - 1\<rparr>)
                       (letterCount box2 - 1) (CHR 0x00)
                   else Some box2)
                else Some box2);
             Some (if KEY_ENTER_pressed inp
                   then box3\<lparr>active := False, borderColor := DARKGRAY_CUSTOM\<rparr>
                   else box3, queue')
           }
         else Some (box1, queue))"

text \<open>One box of \<^verbatim>\<open>ResetInputBoxes\<close>; \<^verbatim>\<open>strcpy(box.text, "")\<close> writes the first byte
  only.\<close>

definition reset_box :: "InputBox \<Rightarrow> InputBox" where
  "reset_box box =
     box\<lparr>active := False, borderColor := DARKGRAY_CUSTOM,
         textbuf := (textbuf box)[0 := CHR 0x00], letterCount := 0\<rparr>"

definition ResetInputBoxes :: "app_state \<Rightarrow> app_state" where
  "ResetInputBoxes s =
     s\<lparr>bidAmountInput := reset_box (bidAmountInput s),
       bidderNameInput := reset_box (bidderNameInput s),
       signInUsernameInput := reset_box (signInUsernameInput s),
       signInPasswordInput := reset_box (signInPasswordInput s),
       signUpUsernameInput := reset_box (signUpUsernameInput s),
       signUpPasswordInput := reset_box (signUpPasswordInput s),
       signUpConfirmPasswordInput := reset_box (signUpConfirmPasswordInput s)\<rparr>"

text \<open>\<^verbatim>\<open>strcpy(uiMessage, message)\<close> into the 100 bytes of \<^verbatim>\<open>uiMessage\<close>, and the
  timer.\<close>

definition SetUIMessage :: "string \<Rightarrow> app_state \<Rightarrow> app_state option" where
  "SetUIMessage message s =
     do {
       copied \<leftarrow> strcpy 100 message;
       Some (s\<lparr>uiMessage := copied, uiMessageTimer := UI_MESSAGE_DURATION\<rparr>)
     }"

text \<open>What \<^verbatim>\<open>DrawInputBox\<close> reads and writes: the mask is built in a local array of
  \<^verbatim>\<open>MAX_INPUT_CHARS + 1\<close> bytes and terminated at \<^verbatim>\<open>letterCount\<close>; the text is
  measured and drawn as a C string.\<close>

definition DrawInputBox :: "frame_input \<Rightarrow> InputBox \<Rightarrow> unit option" where
  "DrawInputBox inp box =
     do {
       _ \<leftarrow> (if isPassword box then
               (if 0 \<le> letterCount box \<and> letterCount box < MAX_INPUT_CHARS + 1
                then Some () else None)
             else map_option (\<lambda>_. ()) (cstr (textbuf box)));
       (if active box \<and> cursor_shown inp
        then map_option (\<lambda>_. ()) (cstr (textbuf box)) else Some ())
     }"

subsection \<open>Users and the users file\<close>

fun UsernameExists :: "User list \<Rightarrow> string \<Rightarrow> bool" where
  "UsernameExists [] uname = False"
| "UsernameExists (u # us) uname = (if username u = uname then True else UsernameExists us uname)"

fun AuthenticateUser_loop :: "User list \<Rightarrow> string \<Rightarrow> 32 word \<Rightarrow> bool" where
  "AuthenticateUser_loop [] uname inputHash = False"
| "AuthenticateUser_loop (u # us) uname inputHash =
     (if username u = uname \<and> hashedPassword u = inputHash then True
      else AuthenticateUser_loop us uname inputHash)"

definition AuthenticateUser :: "User list \<Rightarrow> string \<Rightarrow> string \<Rightarrow> bool" where
  "AuthenticateUser us uname password = AuthenticateUser_loop us uname (HashPassword password)"

text \<open>\<^verbatim>\<open>fprintf(file, "%s %u\n", users[i].username, users[i].hashedPassword)\<close> for
  each user, appended to the emptied file. Write errors after a successful
  \<^verbatim>\<open>fopen\<close> are not modelled (the program does not look at them either).\<close>

fun SaveUsers_loop :: "User list \<Rightarrow> string \<Rightarrow> string" where
  "SaveUsers_loop [] file = file"
| "SaveUsers_loop (u # us) file =
     SaveUsers_loop us (file @ username u @ '' '' @ utoa (uint (hashedPassword u)) @ [CHR 0x0A])"

definition SaveUsers :: "bool \<Rightarrow> app_state \<Rightarrow> bool \<times> app_state" where
  "SaveUsers fopen_ok s =
     (if \<not> fopen_ok then (False, s)
      else (True, s\<lparr>users_file := Some (SaveUsers_loop (users s) [])\<rparr>))"

text \<open>The users file as the specification words it: one line per user, the user name,
  a space, the hash as an unsigned decimal number, and a newline.\<close>

definition users_file_lines :: "User list \<Rightarrow> string" where
  "users_file_lines us =
     concat (map (\<lambda>u. username u @ '' '' @ utoa (uint (hashedPassword u)) @ [CHR 0x0A]) us)"

text \<open>A user name that the file format can hold: not empty, shorter than the field, and
  without white space or NUL.\<close>

definition plain_name :: "string \<Rightarrow> bool" where
  "plain_name uname =
     (uname \<noteq> [] \<and> length uname < MAX_NAME_LENGTH
      \<and> list_all (\<lambda>c. \<not> isspace c \<and> c \<noteq> CHR 0x00) uname)"

text \<open>
  One call \<^verbatim>\<open>fscanf(file, "%s %u", username, &hashedPassword)\<close> on the rest of the
  file. \<^verbatim>\<open>%s\<close> skips white space and stores the characters up to the next white space
  and a terminator, without a width: 32 characters or more overrun \<^verbatim>\<open>username\<close>.
  \<^verbatim>\<open>%u\<close> skips white space and reads an optionally signed decimal number; a number
  that does not fit the \<^verbatim>\<open>unsigned int\<close> is undefined behaviour in C. The call returns
  2 in the first case below and less in the second.
\<close>

datatype scan = Scanned string "32 word" string | Stopped | Undefined

definition fscanf_s_u :: "string \<Rightarrow> scan" where
  "fscanf_s_u file =
     (let a = dropWhile isspace file;
          tok = takeWhile (\<lambda>c. \<not> isspace c) a;
          b = dropWhile isspace (dropWhile (\<lambda>c. \<not> isspace c) a);
          neg = (b \<noteq> [] \<and> hd b = CHR ''-'');
          d = (if b \<noteq> [] \<and> (hd b = CHR ''-'' \<or> hd b = CHR ''+'') then tl b else b);
          ds = takeWhile isdigit d
      in if tok = [] then Stopped
         else if length tok \<ge> MAX_NAME_LENGTH then Undefined
         else if ds = [] then Stopped
         else if digits_val 10 ds \<ge> 2 ^ 32 then Undefined
         else Scanned (takeWhile (\<lambda>c. c \<noteq> CHR 0x00) tok)
                (word_of_int (if neg then - digits_val 10 ds else digits_val 10 ds))
                (dropWhile isdigit d))"

text \<open>\<^verbatim>\<open>while (userCount < MAX_USERS && fscanf(...) == 2) userCount++;\<close> with the number
  of free entries as the first argument.\<close>

fun LoadUsers_loop :: "nat \<Rightarrow> string \<Rightarrow> User list option" where
  "LoadUsers_loop 0 file = Some []"
| "LoadUsers_loop (Suc free) file =
     (case fscanf_s_u file of
        Scanned uname h rest \<Rightarrow>
          map_option ((#) \<lparr>username = uname, hashedPassword = h\<rparr>) (LoadUsers_loop free rest)
      | Stopped \<Rightarrow> Some []
      | Undefined \<Rightarrow> None)"

definition LoadUsers :: "app_state \<Rightarrow> (bool \<times> app_state) option" where
  "LoadUsers s =
     (case users_file s of
        None \<Rightarrow> Some (False, s)
      | Some file \<Rightarrow>
          map_option (\<lambda>us. (True, s\<lparr>users := us\<rparr>)) (LoadUsers_loop (nat MAX_USERS) file))"

definition RegisterUser ::
  "bool \<Rightarrow> string \<Rightarrow> string \<Rightarrow> app_state \<Rightarrow> (bool \<times> app_state) option" where
  "RegisterUser fopen_ok uname password s =
     (if int (length (users s)) \<ge> MAX_USERS then
        do {
          s' \<leftarrow> SetUIMessage ''Cannot register: maximum user limit reached.'' s;
          Some (False, s')
        }
      else if UsernameExists (users s) uname then
        do {
          s' \<leftarrow> SetUIMessage ''Registration failed: Username already exists.'' s;
          Some (False, s')
        }
      else
        do {
          stored \<leftarrow> strcpy MAX_NAME_LENGTH uname;
          Some (SaveUsers fopen_ok
                  (s\<lparr>users := users s @ [\<lparr>username = stored, hashedPassword = HashPassword password\<rparr>]\<rparr>))
        })"

subsection \<open>Auction items\<close>

definition zero_item :: AuctionItem where
  "zero_item = \<lparr>name = [], description = [], currentBid = Finite 0, highestBidder = [],
                auctionClosed = False\<rparr>"

definition InitAuctionData :: "app_state \<Rightarrow> app_state" where
  "InitAuctionData s =
     s\<lparr>itemCount := 3,
       items := (items s)
         [0 := \<lparr>name = ''Antique Vase'',
                description = ''A beautiful ceramic vase from the Ming Dynasty.'',
                currentBid = f32 1500, highestBidder = ''No Bids Yet'', auctionClosed = False\<rparr>,
          1 := \<lparr>name = ''Rare Comic Book'',
                description = ''First edition of 'The Amazing Spider-Man #1'.'',
                currentBid = f32 5000, highestBidder = ''Peter P.'', auctionClosed = False\<rparr>,
          2 := \<lparr>name = ''Vintage Guitar'',
                description = ''1960s electric guitar, well-preserved.'',
                currentBid = f32 2500, highestBidder = ''Mary J.'', auctionClosed = True\<rparr>]\<rparr>"

text \<open>\<^verbatim>\<open>items[i]\<close>, read.\<close>

definition item_at :: "app_state \<Rightarrow> int \<Rightarrow> AuctionItem option" where
  "item_at s i =
     (if 0 \<le> i \<and> i < MAX_ITEMS \<and> nat i < length (items s) then Some (items s ! nat i) else None)"

subsection \<open>The start of \<open>main\<close>\<close>

definition new_box :: "Rectangle \<Rightarrow> bool \<Rightarrow> InputBox" where
  "new_box r masked =
     \<lparr>rect = r, textbuf = replicate (nat (MAX_INPUT_CHARS + 1)) (CHR 0x00), letterCount = 0,
      active = False, borderColor = DARKGRAY_CUSTOM, isPassword = masked\<rparr>"

text \<open>The globals as the loader leaves them, with the users file found on disk.\<close>

definition globals :: "string option \<Rightarrow> app_state" where
  "globals file =
     \<lparr>items = replicate (nat MAX_ITEMS) zero_item, itemCount = 0, selectedItemIndex = - 1,
      currentScreen = SCREEN_AUTH_MENU, users = [], loggedInUsername = [],
      bidAmountInput = new_box (Rectangle 0 0 0 0) False,
      bidderNameInput = new_box (Rectangle 0 0 0 0) False,
      signInUsernameInput = new_box (Rectangle 0 0 0 0) False,
      signInPasswordInput = new_box (Rectangle 0 0 0 0) False,
      signUpUsernameInput = new_box (Rectangle 0 0 0 0) False,
      signUpPasswordInput = new_box (Rectangle 0 0 0 0) False,
      signUpConfirmPasswordInput = new_box (Rectangle 0 0 0 0) False,
      uiMessage = [], uiMessageTimer = Finite 0, users_file = file\<rparr>"

definition init_state :: "string option \<Rightarrow> app_state option" where
  "init_state file =
     do {
       (loaded, s) \<leftarrow> LoadUsers (InitAuctionData (globals file));
       Some (s\<lparr>bidAmountInput :=
                 new_box (Rectangle (of_int (screenWidth div 2 - 100)) 300 200 40) False,
               bidderNameInput :=
                 new_box (Rectangle (of_int (screenWidth div 2 - 100)) 380 200 40) False,
               signInUsernameInput :=
                 new_box (Rectangle (of_int (screenWidth div 2 - 120)) 250 240 40) False,
               signInPasswordInput :=
                 new_box (Rectangle (of_int (screenWidth div 2 - 120)) 320 240 40) True,
               signUpUsernameInput :=
                 new_box (Rectangle (of_int (screenWidth div 2 - 120)) 200 240 40) False,
               signUpPasswordInput :=
                 new_box (Rectangle (of_int (screenWidth div 2 - 120)) 270 240 40) True,
               signUpConfirmPasswordInput :=
                 new_box (Rectangle (of_int (screenWidth div 2 - 120)) 340 240 40) True\<rparr>)
     }"

subsection \<open>The update step of one frame\<close>

text \<open>The message timer, at the top of the loop body.\<close>

definition tick_message :: "frame_input \<Rightarrow> app_state \<Rightarrow> app_state" where
  "tick_message inp s =
     (if fgt (uiMessageTimer s) (Finite 0) then
        (let s1 = s\<lparr>uiMessageTimer := fsub (uiMessageTimer s) (GetFrameTime inp)\<rparr>
         in if fle (uiMessageTimer s1) (Finite 0) then s1\<lparr>uiMessage := []\<rparr> else s1)
      else s)"

definition clicked :: "frame_input \<Rightarrow> Rectangle \<Rightarrow> bool" where
  "clicked inp r = (IsMouseOver inp r \<and> IsMouseButtonPressed inp)"

definition update_auth_menu :: "frame_input \<Rightarrow> app_state \<Rightarrow> app_state option" where
  "update_auth_menu inp s =
     do {
       let signInButton =
             Rectangle (of_int (screenWidth div 2 - 100)) (of_int (screenHeight div 2 - 50)) 200 50;
       let signUpButton =
             Rectangle (of_int (screenWidth div 2 - 100)) (of_int (screenHeight div 2 + 20)) 200 50;
       s1 \<leftarrow> (if clicked inp signInButton
              then SetUIMessage ''Enter your credentials.''
                     (ResetInputBoxes (s\<lparr>currentScreen := SCREEN_SIGN_IN\<rparr>))
              else Some s);
       (if clicked inp signUpButton
        then SetUIMessage ''Choose a username and password.''
               (ResetInputBoxes (s1\<lparr>currentScreen := SCREEN_SIGN_UP\<rparr>))
        else Some s1)
     }"

text \<open>The body of \<^verbatim>\<open>if (IsMouseOver(loginButton) && IsMouseButtonPressed(...))\<close>.\<close>

definition login_click :: "app_state \<Rightarrow> app_state option" where
  "login_click s1 =
     do {
       uname \<leftarrow> cstr (textbuf (signInUsernameInput s1));
       password \<leftarrow> cstr (textbuf (signInPasswordInput s1));
       (if AuthenticateUser (users s1) uname password then
          do {
            logged \<leftarrow> strcpy MAX_NAME_LENGTH uname;
            message \<leftarrow> TextFormat ''Welcome, %s!'' [ArgS logged];
            s2 \<leftarrow> SetUIMessage message
                    (s1\<lparr>loggedInUsername := logged, currentScreen := SCREEN_ITEM_LIST\<rparr>);
            Some (ResetInputBoxes s2)
          }
        else SetUIMessage ''Login failed. Check username/password.'' s1)
     }"

definition update_sign_in :: "frame_input \<Rightarrow> app_state \<Rightarrow> app_state option" where
  "update_sign_in inp s =
     do {
       (ubox, q1) \<leftarrow> UpdateInputBox inp (char_queue inp) (signInUsernameInput s);
       (pbox, q2) \<leftarrow> UpdateInputBox inp q1 (signInPasswordInput s);
       let s1 = s\<lparr>signInUsernameInput := ubox, signInPasswordInput := pbox\<rparr>;
       let loginButton = Rectangle (of_int (screenWidth div 2 - 80)) 400 160 50;
       let backButton = Rectangle (of_int (screenWidth div 2 - 80)) 470 160 50;
       s2 \<leftarrow> (if clicked inp loginButton then login_click s1 else Some s1);
       (if clicked inp backButton
        then SetUIMessage [] (ResetInputBoxes (s2\<lparr>currentScreen := SCREEN_AUTH_MENU\<rparr>))
        else Some s2)
     }"

text \<open>The body of \<^verbatim>\<open>if (IsMouseOver(registerButton) && IsMouseButtonPressed(...))\<close>.
  The second \<^verbatim>\<open>strlen\<close> is evaluated only if the first test fails.\<close>

definition register_click :: "frame_input \<Rightarrow> app_state \<Rightarrow> app_state option" where
  "register_click inp s1 =
     do {
       uname \<leftarrow> cstr (textbuf (signUpUsernameInput s1));
       too_short \<leftarrow>
         (if length uname < 3 then Some True
          else map_option (\<lambda>password. length password < 5)
                 (cstr (textbuf (signUpPasswordInput s1))));
       (if too_short then
          SetUIMessage ''Username (min 3 chars) / Password (min 5 chars) too short.'' s1
        else
          do {
            password \<leftarrow> cstr (textbuf (signUpPasswordInput s1));
            confirm \<leftarrow> cstr (textbuf (signUpConfirmPasswordInput s1));
            (if password \<noteq> confirm then
               SetUIMessage ''Passwords do not match!'' s1
             else if UsernameExists (users s1) uname then
               SetUIMessage ''Username already taken.'' s1
             else
               do {
                 (registered, s') \<leftarrow> RegisterUser (fopen_w_ok inp) uname password s1;
                 (if registered then
                    do {
                      s2 \<leftarrow> SetUIMessage ''Registration successful! Please sign in.'' s';
                      Some (ResetInputBoxes (s2\<lparr>currentScreen := SCREEN_SIGN_IN\<rparr>))
                    }
                  else SetUIMessage ''Registration failed. Try again.'' s')
               })
          })
     }"

definition update_sign_up :: "frame_input \<Rightarrow> app_state \<Rightarrow> app_state option" where
  "update_sign_up inp s =
     do {
       (ubox, q1) \<leftarrow> UpdateInputBox inp (char_queue inp) (signUpUsernameInput s);
       (pbox, q2) \<leftarrow> UpdateInputBox inp q1 (signUpPasswordInput s);
       (cbox, q3) \<leftarrow> UpdateInputBox inp q2 (signUpConfirmPasswordInput s);
       let s1 = s\<lparr>signUpUsernameInput := ubox, signUpPasswordInput := pbox,
                  signUpConfirmPasswordInput := cbox\<rparr>;
       let registerButton = Rectangle (of_int (screenWidth div 2 - 80)) 410 160 50;
       let backButton = Rectangle (of_int (screenWidth div 2 - 80)) 480 160 50;
       s2 \<leftarrow> (if clicked inp registerButton then register_click inp s1 else Some s1);
       (if clicked inp backButton
        then SetUIMessage [] (ResetInputBoxes (s2\<lparr>currentScreen := SCREEN_AUTH_MENU\<rparr>))
        else Some s2)
     }"

text \<open>The row of item \<open>i\<close> in the list.\<close>

definition itemRect :: "int \<Rightarrow> Rectangle" where
  "itemRect i = Rectangle 50 (of_int (100 + i * 60)) (of_int (screenWidth - 100)) 50"

definition update_item_list :: "frame_input \<Rightarrow> app_state \<Rightarrow> app_state option" where
  "update_item_list inp s =
     do {
       s1 \<leftarrow>
         (if IsMouseButtonPressed inp then
            (case find (\<lambda>i. CheckCollisionPointRec (GetMousePosition inp) (itemRect i))
                    [0 .. itemCount s - 1] of
               Some i \<Rightarrow>
                 SetUIMessage []
                   (s\<lparr>selectedItemIndex := i, currentScreen := SCREEN_ITEM_DETAILS\<rparr>)
             | None \<Rightarrow> Some s)
          else Some s);
       let logoutButtonRect = Rectangle (of_int (screenWidth - 150)) 20 120 40;
       (if clicked inp logoutButtonRect
        then SetUIMessage ''Logged out successfully.''
               (s1\<lparr>loggedInUsername := [], currentScreen := SCREEN_AUTH_MENU\<rparr>)
        else Some s1)
     }"

definition update_item_details :: "frame_input \<Rightarrow> app_state \<Rightarrow> app_state option" where
  "update_item_details inp s =
     do {
       let backButtonRect = Rectangle 50 (of_int (screenHeight - 60)) 120 40;
       let placeBidButtonRect =
             Rectangle (of_int (screenWidth - 170)) (of_int (screenHeight - 60)) 120 40;
       s1 \<leftarrow> (if clicked inp backButtonRect
              then SetUIMessage []
                     (s\<lparr>currentScreen := SCREEN_ITEM_LIST, selectedItemIndex := - 1\<rparr>)
              else Some s);
       (if selectedItemIndex s1 \<noteq> - 1 then
          do {
            item \<leftarrow> item_at s1 (selectedItemIndex s1);
            (if \<not> auctionClosed item \<and> clicked inp placeBidButtonRect
             then SetUIMessage ''Enter your bid and name.''
                    (ResetInputBoxes (s1\<lparr>currentScreen := SCREEN_PLACE_BID\<rparr>))
             else Some s1)
          }
        else Some s1)
     }"

text \<open>The body of \<^verbatim>\<open>if (IsMouseOver(bidButtonRect) && IsMouseButtonPressed(...))\<close>.
  \<^verbatim>\<open>TraceLog\<close> writes a line to the log and changes nothing of the program.\<close>

definition bid_click :: "app_state \<Rightarrow> app_state option" where
  "bid_click s1 =
     do {
       amount \<leftarrow> cstr (textbuf (bidAmountInput s1));
       let newBid = strtof amount;
       bidder \<leftarrow> cstr (textbuf (bidderNameInput s1));
       (if length bidder = 0 then
          SetUIMessage ''Please enter your name to bid.'' s1
        else
          do {
            item \<leftarrow> item_at s1 (selectedItemIndex s1);
            (if fle newBid (currentBid item) then
               do {
                 message \<leftarrow>
                   TextFormat ''Bid failed: $%.2f is not higher than current bid $%.2f''
                     [ArgF newBid, ArgF (currentBid item)];
                 SetUIMessage message s1
               }
             else if fgt newBid (f32 999999999) then
               SetUIMessage ''Bid amount too large!'' s1
             else
               do {
                 stored \<leftarrow> strcpy MAX_BIDDER_LENGTH bidder;
                 message \<leftarrow>
                   TextFormat ''Bid of $%.2f placed successfully by %s!''
                     [ArgF newBid, ArgS bidder];
                 SetUIMessage message
                   (s1\<lparr>items := (items s1)
                          [nat (selectedItemIndex s1) :=
                             item\<lparr>currentBid := newBid, highestBidder := stored\<rparr>],
                       currentScreen := SCREEN_ITEM_DETAILS\<rparr>)
               })
          })
     }"

definition update_place_bid :: "frame_input \<Rightarrow> app_state \<Rightarrow> app_state option" where
  "update_place_bid inp s =
     do {
       (abox, q1) \<leftarrow> UpdateInputBox inp (char_queue inp) (bidAmountInput s);
       (nbox, q2) \<leftarrow> UpdateInputBox inp q1 (bidderNameInput s);
       let s1 = s\<lparr>bidAmountInput := abox, bidderNameInput := nbox\<rparr>;
       let bidButtonRect = Rectangle (of_int (screenWidth div 2 - 120)) 480 100 40;
       let cancelButtonRect = Rectangle (of_int (screenWidth div 2 + 20)) 480 100 40;
       s2 \<leftarrow> (if clicked inp bidButtonRect then bid_click s1 else Some s1);
       (if clicked inp cancelButtonRect
        then SetUIMessage [] (s2\<lparr>currentScreen := SCREEN_ITEM_DETAILS\<rparr>)
        else Some s2)
     }"

definition frame_update :: "frame_input \<Rightarrow> app_state \<Rightarrow> app_state option" where
  "frame_update inp s =
     (let s0 = tick_message inp s
      in case currentScreen s0 of
           SCREEN_AUTH_MENU \<Rightarrow> update_auth_menu inp s0
         | SCREEN_SIGN_IN \<Rightarrow> update_sign_in inp s0
         | SCREEN_SIGN_UP \<Rightarrow> update_sign_up inp s0
         | SCREEN_ITEM_LIST \<Rightarrow> update_item_list inp s0
         | SCREEN_ITEM_DETAILS \<Rightarrow> update_item_details inp s0
         | SCREEN_PLACE_BID \<Rightarrow> update_place_bid inp s0)"

subsection \<open>The drawing pass\<close>

text \<open>Drawing changes no global; what matters of it is which array entries it reads.
  \<open>draw_items\<close> lists the indices of \<^verbatim>\<open>items\<close> that the pass reads on each screen.
  The texts it formats go through \<^verbatim>\<open>TextFormat\<close> and are not copied anywhere.\<close>

definition draw_items :: "app_state \<Rightarrow> int list" where
  "draw_items s =
     (case currentScreen s of
        SCREEN_ITEM_LIST \<Rightarrow> [0 .. itemCount s - 1]
      | SCREEN_ITEM_DETAILS \<Rightarrow> (if selectedItemIndex s \<noteq> - 1 then [selectedItemIndex s] else [])
      | SCREEN_PLACE_BID \<Rightarrow> [selectedItemIndex s]
      | _ \<Rightarrow> [])"

definition draw_boxes :: "app_state \<Rightarrow> InputBox list" where
  "draw_boxes s =
     (case currentScreen s of
        SCREEN_SIGN_IN \<Rightarrow> [signInUsernameInput s, signInPasswordInput s]
      | SCREEN_SIGN_UP \<Rightarrow>
          [signUpUsernameInput s, signUpPasswordInput s, signUpConfirmPasswordInput s]
      | SCREEN_PLACE_BID \<Rightarrow> [bidAmountInput s, bidderNameInput s]
      | _ \<Rightarrow> [])"

definition draw :: "frame_input \<Rightarrow> app_state \<Rightarrow> unit option" where
  "draw inp s =
     (if list_all (\<lambda>i. item_at s i \<noteq> None) (draw_items s)
         \<and> list_all (\<lambda>box. DrawInputBox inp box \<noteq> None) (draw_boxes s)
      then Some () else None)"

text \<open>One iteration of the main loop, and a run of iterations.\<close>

definition frame :: "frame_input \<Rightarrow> app_state \<Rightarrow> app_state option" where
  "frame inp s = do { s' \<leftarrow> frame_update inp s; _ \<leftarrow> draw inp s'; Some s' }"

fun run :: "frame_input list \<Rightarrow> app_state \<Rightarrow> app_state option" where
  "run [] s = Some s"
| "run (inp # inps) s = (case frame inp s of None \<Rightarrow> None | Some s' \<Rightarrow> run inps s')"

text \<open>The states the program can be in at the top of the loop: some file (or none) is
  on disk at the start, and every frame brings some input.\<close>

inductive reachable :: "app_state \<Rightarrow> bool" where
  start: "init_state file = Some s \<Longrightarrow> reachable s"
| step: "reachable s \<Longrightarrow> frame inp s = Some s' \<Longrightarrow> reachable s'"

subsection \<open>Invariants\<close>

text \<open>What holds of every input box at the top of the loop: the array has its 21
  bytes, the count is between 0 and 20, and the last byte is the terminator that the
  initialisation put there (no write ever reaches index 20).\<close>

definition box_ok :: "InputBox \<Rightarrow> bool" where
  "box_ok box =
     (length (textbuf box) = 21 \<and> 0 \<le> letterCount box \<and> letterCount box \<le> MAX_INPUT_CHARS
      \<and> textbuf box ! 20 = CHR 0x00)"

text \<open>The text of a box as the C library reads it.\<close>

definition box_text :: "InputBox \<Rightarrow> string" where
  "box_text box = takeWhile (\<lambda>c. c \<noteq> CHR 0x00) (textbuf box)"

definition boxes_ok :: "app_state \<Rightarrow> bool" where
  "boxes_ok s =
     (box_ok (bidAmountInput s) \<and> box_ok (bidderNameInput s)
      \<and> box_ok (signInUsernameInput s) \<and> box_ok (signInPasswordInput s)
      \<and> box_ok (signUpUsernameInput s) \<and> box_ok (signUpPasswordInput s)
      \<and> box_ok (signUpConfirmPasswordInput s))"

definition rects_ok :: "app_state \<Rightarrow> bool" where
  "rects_ok s =
     (rect (bidAmountInput s) = Rectangle 300 300 200 40
      \<and> rect (bidderNameInput s) = Rectangle 300 380 200 40
      \<and> rect (signInUsernameInput s) = Rectangle 280 250 240 40
      \<and> rect (signInPasswordInput s) = Rectangle 280 320 240 40
      \<and> rect (signUpUsernameInput s) = Rectangle 280 200 240 40
      \<and> rect (signUpPasswordInput s) = Rectangle 280 270 240 40
      \<and> rect (signUpConfirmPasswordInput s) = Rectangle 280 340 240 40
      \<and> \<not> isPassword (bidAmountInput s) \<and> \<not> isPassword (bidderNameInput s))"

definition selection_ok :: "app_state \<Rightarrow> bool" where
  "selection_ok s =
     (length (items s) = 5 \<and> itemCount s = 3
      \<and> (currentScreen s = SCREEN_ITEM_DETAILS \<or> currentScreen s = SCREEN_PLACE_BID
           \<longrightarrow> 0 \<le> selectedItemIndex s \<and> selectedItemIndex s < itemCount s))"

definition invariant :: "app_state \<Rightarrow> bool" where
  "invariant s = (boxes_ok s \<and> rects_ok s \<and> selection_ok s)"

text \<open>The state after a message that fits the 100 bytes has been set.\<close>

definition shown :: "string \<Rightarrow> app_state \<Rightarrow> app_state" where
  "shown m s = s\<lparr>uiMessage := m, uiMessageTimer := UI_MESSAGE_DURATION\<rparr>"

subsection \<open>Sample inputs\<close>

text \<open>A frame of a sixty-fourth of a second with no input; a click at a point; a click
  at a point with characters typed during the same frame.\<close>

definition idle :: frame_input where
  "idle =
     \<lparr>GetFrameTime = Finite (1 / 64), GetMousePosition = (0, 0), IsMouseButtonPressed = False,
      char_queue = [], KEY_BACKSPACE_pressed = False, KEY_ENTER_pressed = False,
      cursor_shown = True, fopen_w_ok = True\<rparr>"

definition click :: "rat \<Rightarrow> rat \<Rightarrow> frame_input" where
  "click px py = idle\<lparr>GetMousePosition := (px, py), IsMouseButtonPressed := True\<rparr>"

definition type_at :: "rat \<Rightarrow> rat \<Rightarrow> string \<Rightarrow> frame_input" where
  "type_at px py keys = (click px py)\<lparr>char_queue := map of_char keys\<rparr>"

text \<open>From the first start with no users file: sign up as \<open>bob\<close>, sign in, and arrive
  at the item list.\<close>

definition sign_up_and_in :: "frame_input list" where
  "sign_up_and_in =
     [click 400 340, type_at 400 220 ''bob'', type_at 400 290 ''secret'',
      type_at 400 360 ''secret'', click 400 430,
      type_at 400 270 ''bob'', type_at 400 340 ''secret'', click 400 420]"

text \<open>On the details screen of an open item: press Place Bid, type the amount and the
  name \<open>x\<close>, press BID.\<close>

definition bid :: "string \<Rightarrow> frame_input list" where
  "bid amount = [click 700 560, type_at 400 320 amount, type_at 400 400 ''x'', click 340 500]"

text \<open>The same without the last click.\<close>

definition fill_bid :: "string \<Rightarrow> frame_input list" where
  "fill_bid amount = [click 700 560, type_at 400 320 amount, type_at 400 400 ''x'']"

text \<open>From the first start: on the sign-up screen the three fields are filled, Back is
  pressed and Sign Up again, and this time the user types one character into each
  password field.\<close>

definition retype_password :: "frame_input list" where
  "retype_password =
     [click 400 340, type_at 400 220 ''bob'', type_at 400 290 ''secret'',
      type_at 400 360 ''secret'', click 400 500,
      click 400 340, type_at 400 220 ''bob'', type_at 400 290 ''x'', type_at 400 360 ''x'']"

definition alice :: User where
  "alice = \<lparr>username = ''alice'', hashedPassword = HashPassword ''password1''\<rparr>"

section \<open>Properties\<close>

subsection \<open>Computing\<close>

text \<open>Rules that let the simplifier compute: recursion on numerals, the floor of a
  fraction, the character of a key code.\<close>

lemma binade_numeral:
  "binade (numeral n) a =
     (if 2 \<le> a then binade (pred_numeral n) (a / 2) + 1
      else if a < 1 then binade (pred_numeral n) (a * 2) - 1
      else 0)"
  by (simp add: numeral_eq_Suc)

lemma floor_rat_numeral: "\<lfloor>numeral a / numeral b :: rat\<rfloor> = numeral a div numeral b"
  by (metis floor_divide_of_int_eq of_int_numeral)

lemma bind_weak_cong: "m = m' \<Longrightarrow> Option.bind m f = Option.bind m' f"
  by simp

lemma char_of_numeral:
  "char_of (numeral k :: int) =
     Char (odd (numeral k :: int)) (bit (numeral k :: int) 1) (bit (numeral k :: int) 2)
       (bit (numeral k :: int) 3) (bit (numeral k :: int) 4) (bit (numeral k :: int) 5)
       (bit (numeral k :: int) 6) (bit (numeral k :: int) 7)"
  by (simp add: char_of_def bit_0)

lemma list_update_Cons_numeral: "(x # xs)[numeral v := y] = x # xs[numeral v - 1 := y]"
  by (simp add: numeral_eq_Suc)

lemma replicate_21: "replicate 21 c = [c,c,c,c,c,c,c,c,c,c,c,c,c,c,c,c,c,c,c,c,c]"
  by (simp add: eval_nat_numeral)

lemma replicate_5: "replicate 5 c = [c,c,c,c,c]"
  by (simp add: eval_nat_numeral)

lemma upto_0_2: "[0..2::int] = [0,1,2]"
  by (simp add: upto.simps)

text \<open>The literal \<^verbatim>\<open>999999999.0f\<close>: between \<open>2 ^ 29\<close> and \<open>2 ^ 30\<close> the binary32 numbers
  are the multiples of 64, and the nearest to 999999999 is 1000000000.\<close>

lemma f32_ceiling: "f32 999999999 = Finite 1000000000"
  by (simp add: f32_def binade_numeral round_even_def pow2_def floor_rat_numeral Let_def
        cong: let_weak_cong)

subsection \<open>The length of a printed float\<close>

text \<open>A finite binary32 number is below \<open>2 ^ 128\<close> in magnitude, so its integer part has
  at most 39 digits, and \<^verbatim>\<open>%.2f\<close> prints at most 43 characters.\<close>

lemma utoa_length: "0 < k \<Longrightarrow> n < 10 ^ k \<Longrightarrow> length (utoa n) \<le> k"
proof (induction n arbitrary: k rule: utoa.induct)
  case (1 n)
  show ?case
  proof (cases "n < 10")
    case True
    with 1(2) show ?thesis by (simp add: utoa.simps [of n])
  next
    case False
    have "k \<noteq> 1" using False 1(3) by auto
    with 1(2) obtain j where k: "k = Suc j" and j: "0 < j"
      by (cases k) auto
    from 1(3) k have "n < 10 * 10 ^ j" by simp
    then have "n div 10 < 10 ^ j" by simp
    from 1(1) [OF False j this] False show ?thesis
      by (simp add: utoa.simps [of n] k)
  qed
qed

lemma pow2_pos: "0 < pow2 e"
  by (simp add: pow2_def)

lemma round_even_bounds: "0 \<le> q \<Longrightarrow> 0 \<le> round_even q \<and> of_int (round_even q) \<le> q + 1"
proof -
  assume "0 \<le> q"
  then have n: "0 \<le> \<lfloor>q\<rfloor>" by simp
  have f: "of_int \<lfloor>q\<rfloor> \<le> q" by (rule of_int_floor_le)
  from f have f1: "of_int \<lfloor>q\<rfloor> \<le> q + 1"
    by linarith
  from f have f2: "of_int (\<lfloor>q\<rfloor> + 1) \<le> q + 1"
    by simp
  from n have n2: "0 \<le> \<lfloor>q\<rfloor> + 1"
    by linarith
  have "round_even q = \<lfloor>q\<rfloor> \<or> round_even q = \<lfloor>q\<rfloor> + 1"
    by (simp add: round_even_def Let_def)
  then show ?thesis
  proof
    assume e: "round_even q = \<lfloor>q\<rfloor>"
    show ?thesis unfolding e using n f1 by (rule conjI)
  next
    assume e: "round_even q = \<lfloor>q\<rfloor> + 1"
    show ?thesis unfolding e using n2 f2 by (rule conjI)
  qed
qed

lemma f32_range: "f32 x = Finite v \<Longrightarrow> \<bar>v\<bar> < 2 ^ 128"
proof -
  assume a: "f32 x = Finite v"
  define u where "u = pow2 (max (- 126) (binade 300 \<bar>x\<bar>) - 23)"
  define r :: rat where "r = of_int (round_even (\<bar>x\<bar> / u)) * u"
  have "0 < u" by (simp add: u_def pow2_pos)
  then have "0 \<le> \<bar>x\<bar> / u" by simp
  then have "0 \<le> round_even (\<bar>x\<bar> / u)" using round_even_bounds by blast
  with \<open>0 < u\<close> have r0: "0 \<le> r" by (simp add: r_def)
  from a have "x = 0 \<and> v = 0 \<or> r < pow2 128 \<and> (v = r \<or> v = - r)"
    by (auto simp: f32_def Let_def u_def r_def split: if_splits)
  with r0 show ?thesis by (auto simp: pow2_def)
qed

lemma strtof_cases:
  "strtof t = PosInf \<or> strtof t = NegInf \<or> strtof t = NaN \<or> strtof t = NegNaN
   \<or> strtof t = Finite 0 \<or> (\<exists>x. strtof t = f32 x) \<or> (\<exists>x. strtof t = fneg (f32 x))"
  by (simp add: strtof_def Let_def split: option.split) blast

lemma fneg_Finite: "fneg a = Finite v \<Longrightarrow> a = Finite (- v) \<or> v = 0"
  by (cases a) (auto split: if_splits)

lemma strtof_range: "strtof t = Finite v \<Longrightarrow> \<bar>v\<bar> < 2 ^ 128"
proof -
  assume a: "strtof t = Finite v"
  from strtof_cases [of t] a
  consider "v = 0" | x where "f32 x = Finite v" | x where "fneg (f32 x) = Finite v"
    by auto
  then show ?thesis
  proof cases
    case 1
    then show ?thesis by simp
  next
    case 2
    then show ?thesis by (rule f32_range)
  next
    case 3
    from fneg_Finite [OF this] show ?thesis
    proof
      assume "f32 x = Finite (- v)"
      from f32_range [OF this] show ?thesis by simp
    next
      assume "v = 0"
      then show ?thesis by simp
    qed
  qed
qed
lemma conv_2f_Finite_length: "\<bar>v\<bar> < 2 ^ 128 \<Longrightarrow> length (conv_2f (Finite v)) \<le> 43"
proof -
  assume v: "\<bar>v\<bar> < 2 ^ 128"
  define n where "n = round_even (\<bar>v\<bar> * 100)"
  have "of_int n \<le> \<bar>v\<bar> * 100 + 1" using round_even_bounds [of "\<bar>v\<bar> * 100"] by (simp add: n_def)
  with v have "(of_int n :: rat) < of_int (2 ^ 128 * 100 + 1)" by simp
  then have "n < 2 ^ 128 * 100 + 1" by (simp only: of_int_less_iff)
  then have "n div 100 < 10 ^ 39" by simp
  then have "length (utoa (n div 100)) \<le> 39" by (simp add: utoa_length)
  then show ?thesis
    by (cases "v < 0") (simp_all add: conv_2f_def Let_def n_def abs_if)
qed

lemma conv_2f_strtof_length: "length (conv_2f (strtof t)) \<le> 43"
proof (cases "strtof t")
  case (Finite v)
  with strtof_range [OF Finite] show ?thesis by (simp add: conv_2f_Finite_length)
qed (simp_all add: conv_2f_def)

subsection \<open>Input boxes keep their shape\<close>

lemma store_text_Some:
  "length (textbuf box) = 21 \<Longrightarrow> 0 \<le> i \<Longrightarrow> i \<le> 20 \<Longrightarrow>
     store_text box i c = Some (box\<lparr>textbuf := (textbuf box)[nat i := c]\<rparr>)"
  by (simp add: store_text_def MAX_INPUT_CHARS_def)

lemma nth20_update: "i < 20 \<Longrightarrow> (xs[nat i := c]) ! 20 = xs ! 20"
proof -
  assume "i < 20"
  then have "nat i \<noteq> 20" by arith
  then show ?thesis by (rule nth_list_update_neq)
qed

lemma read_chars_ok:
  "box_ok box \<Longrightarrow>
     \<exists>box' queue'. read_chars queue box = Some (box', queue') \<and> box_ok box'
        \<and> rect box' = rect box \<and> isPassword box' = isPassword box \<and> active box' = active box
        \<and> borderColor box' = borderColor box"
proof (induction queue arbitrary: box)
  case Nil
  then show ?case by simp
next
  case (Cons key queue)
  show ?case
  proof (cases "key > 0 \<and> (key \<ge> 32 \<and> key \<le> 125) \<and> letterCount box < MAX_INPUT_CHARS")
    case True
    let ?b = "box\<lparr>textbuf := (textbuf box)[nat (letterCount box) := char_of key],
                  letterCount := letterCount box + 1\<rparr>"
    from True Cons.prems have ok: "box_ok ?b"
      by (simp add: box_ok_def MAX_INPUT_CHARS_def nth20_update)
    from True Cons.prems have st: "store_text box (letterCount box) (char_of key)
        = Some (box\<lparr>textbuf := (textbuf box)[nat (letterCount box) := char_of key]\<rparr>)"
      by (simp add: store_text_Some box_ok_def MAX_INPUT_CHARS_def)
    from Cons.IH [OF ok] True st show ?thesis by simp
  next
    case False
    with Cons.IH [OF Cons.prems] Cons.prems show ?thesis by auto
  qed
qed

lemma UpdateInputBox_ok:
  assumes "box_ok box"
  shows "\<exists>box' queue'. UpdateInputBox inp queue box = Some (box', queue') \<and> box_ok box'
        \<and> rect box' = rect box \<and> isPassword box' = isPassword box"
proof -
  let ?b1 = "(if IsMouseButtonPressed inp then
               (if CheckCollisionPointRec (GetMousePosition inp) (rect box)
                then box\<lparr>active := True, borderColor := BLUE_HIGHLIGHT\<rparr>
                else box\<lparr>active := False, borderColor := DARKGRAY_CUSTOM\<rparr>)
             else box)"
  from assms have ok1: "box_ok ?b1" and r1: "rect ?b1 = rect box" "isPassword ?b1 = isPassword box"
    by (simp_all add: box_ok_def)
  show ?thesis
  proof (cases "active ?b1")
    case False
    then show ?thesis using ok1 r1 by (simp add: UpdateInputBox_def Let_def)
  next
    case True
    from read_chars_ok [OF ok1, of queue] obtain b2 q2 where
      rc: "read_chars queue ?b1 = Some (b2, q2)" and ok2: "box_ok b2"
      and r2: "rect b2 = rect ?b1" "isPassword b2 = isPassword ?b1"
      by blast
    let ?b3 = "(if KEY_BACKSPACE_pressed inp \<and> letterCount b2 > 0
                then b2\<lparr>letterCount := letterCount b2 - 1,
                        textbuf := (textbuf b2)[nat (letterCount b2 - 1) := CHR 0x00]\<rparr>
                else b2)"
    have bs: "(if KEY_BACKSPACE_pressed inp then
                  (if letterCount b2 > 0 then
                     store_text (b2\<lparr>letterCount := letterCount b2 - 1\<rparr>)
                       (letterCount b2 - 1) (CHR 0x00)
                   else Some b2)
                else Some b2) = Some ?b3"
      using ok2 by (simp add: store_text_Some box_ok_def MAX_INPUT_CHARS_def)
    have ok3: "box_ok ?b3" and r3: "rect ?b3 = rect b2" "isPassword ?b3 = isPassword b2"
      using ok2 by (simp_all add: box_ok_def MAX_INPUT_CHARS_def nth20_update)
    have "UpdateInputBox inp queue box =
            Some (if KEY_ENTER_pressed inp
                  then ?b3\<lparr>active := False, borderColor := DARKGRAY_CUSTOM\<rparr> else ?b3, q2)"
      using True rc bs by (simp add: UpdateInputBox_def Let_def)
    moreover have "box_ok (if KEY_ENTER_pressed inp
                  then ?b3\<lparr>active := False, borderColor := DARKGRAY_CUSTOM\<rparr> else ?b3)"
      using ok3 by (simp add: box_ok_def)
    ultimately show ?thesis using r1 r2 r3 by simp
  qed
qed

lemma UpdateInputBox_outside:
  "IsMouseButtonPressed inp \<Longrightarrow> \<not> CheckCollisionPointRec (GetMousePosition inp) (rect box) \<Longrightarrow>
     UpdateInputBox inp queue box = Some (box\<lparr>active := False, borderColor := DARKGRAY_CUSTOM\<rparr>, queue)"
  by (simp add: UpdateInputBox_def)

lemma reset_box_ok: "box_ok box \<Longrightarrow> box_ok (reset_box box)"
  by (simp add: box_ok_def reset_box_def MAX_INPUT_CHARS_def)

lemma cstr_box: "box_ok box \<Longrightarrow> cstr (textbuf box) = Some (box_text box)"
proof -
  assume "box_ok box"
  then have "textbuf box ! 20 = CHR 0x00" "20 < length (textbuf box)"
    by (simp_all add: box_ok_def)
  then have "CHR 0x00 \<in> set (textbuf box)"
    by (metis nth_mem)
  then show ?thesis by (simp add: cstr_def box_text_def)
qed

lemma length_box_text: "box_ok box \<Longrightarrow> length (box_text box) \<le> 20"
proof (rule ccontr)
  assume ok: "box_ok box" and "\<not> length (box_text box) \<le> 20"
  then have lt: "20 < length (takeWhile (\<lambda>c. c \<noteq> CHR 0x00) (textbuf box))"
    by (simp add: box_text_def)
  then have "takeWhile (\<lambda>c. c \<noteq> CHR 0x00) (textbuf box) ! 20
               \<in> set (takeWhile (\<lambda>c. c \<noteq> CHR 0x00) (textbuf box))"
    by (rule nth_mem)
  then have "takeWhile (\<lambda>c. c \<noteq> CHR 0x00) (textbuf box) ! 20 \<noteq> CHR 0x00"
    by (rule set_takeWhileD [THEN conjunct2])
  moreover from lt have "takeWhile (\<lambda>c. c \<noteq> CHR 0x00) (textbuf box) ! 20 = textbuf box ! 20"
    by (rule takeWhile_nth)
  ultimately show False using ok by (simp add: box_ok_def)
qed

lemma DrawInputBox_ok: "box_ok box \<Longrightarrow> DrawInputBox inp box = Some ()"
  by (simp add: DrawInputBox_def cstr_box) (simp add: box_ok_def)


lemma boxes_ok_update [simp]:
  "boxes_ok (currentScreen_update f1 s) = boxes_ok s"
  "boxes_ok (selectedItemIndex_update f2 s) = boxes_ok s"
  "boxes_ok (loggedInUsername_update f3 s) = boxes_ok s"
  "boxes_ok (items_update f4 s) = boxes_ok s"
  "boxes_ok (users_update f5 s) = boxes_ok s"
  "boxes_ok (users_file_update f6 s) = boxes_ok s"
  by (simp_all add: boxes_ok_def)

lemma rects_ok_update [simp]:
  "rects_ok (currentScreen_update f1 s) = rects_ok s"
  "rects_ok (selectedItemIndex_update f2 s) = rects_ok s"
  "rects_ok (loggedInUsername_update f3 s) = rects_ok s"
  "rects_ok (items_update f4 s) = rects_ok s"
  "rects_ok (users_update f5 s) = rects_ok s"
  "rects_ok (users_file_update f6 s) = rects_ok s"
  by (simp_all add: rects_ok_def)

lemma boxes_ok_Reset [simp]: "boxes_ok s \<Longrightarrow> boxes_ok (ResetInputBoxes s)"
  by (simp add: boxes_ok_def ResetInputBoxes_def reset_box_ok)

lemma rects_ok_Reset [simp]: "rects_ok (ResetInputBoxes s) = rects_ok s"
  by (simp add: rects_ok_def ResetInputBoxes_def reset_box_def)

lemma Reset_fields [simp]:
  "items (ResetInputBoxes s) = items s" "itemCount (ResetInputBoxes s) = itemCount s"
  "selectedItemIndex (ResetInputBoxes s) = selectedItemIndex s"
  "currentScreen (ResetInputBoxes s) = currentScreen s"
  "users (ResetInputBoxes s) = users s" "users_file (ResetInputBoxes s) = users_file s"
  "uiMessage (ResetInputBoxes s) = uiMessage s" "uiMessageTimer (ResetInputBoxes s) = uiMessageTimer s"
  "loggedInUsername (ResetInputBoxes s) = loggedInUsername s"
  by (simp_all add: ResetInputBoxes_def)

lemma shown_fields [simp]:
  "items (shown m s) = items s" "itemCount (shown m s) = itemCount s"
  "selectedItemIndex (shown m s) = selectedItemIndex s"
  "currentScreen (shown m s) = currentScreen s"
  "users (shown m s) = users s" "users_file (shown m s) = users_file s"
  "uiMessage (shown m s) = m" "uiMessageTimer (shown m s) = UI_MESSAGE_DURATION"
  "loggedInUsername (shown m s) = loggedInUsername s"
  "bidAmountInput (shown m s) = bidAmountInput s"
  "bidderNameInput (shown m s) = bidderNameInput s"
  "signInUsernameInput (shown m s) = signInUsernameInput s"
  "signInPasswordInput (shown m s) = signInPasswordInput s"
  "signUpUsernameInput (shown m s) = signUpUsernameInput s"
  "signUpPasswordInput (shown m s) = signUpPasswordInput s"
  "signUpConfirmPasswordInput (shown m s) = signUpConfirmPasswordInput s"
  by (simp_all add: shown_def)

lemma boxes_ok_shown [simp]: "boxes_ok (shown m s) = boxes_ok s"
  by (simp add: boxes_ok_def)

lemma rects_ok_shown [simp]: "rects_ok (shown m s) = rects_ok s"
  by (simp add: rects_ok_def)

text \<open>A message of fewer than 100 characters is set; a longer one is written past the
  end of \<^verbatim>\<open>uiMessage\<close>.\<close>

lemma SetUIMessage_fits: "length m < 100 \<Longrightarrow> SetUIMessage m s = Some (shown m s)"
  by (simp add: SetUIMessage_def strcpy_def shown_def)

lemma SetUIMessage_None: "SetUIMessage m s = None \<longleftrightarrow> 100 \<le> length m"
  by (simp add: SetUIMessage_def strcpy_def)

lemma SetUIMessage_SomeD: "SetUIMessage m s = Some s' \<Longrightarrow> s' = shown m s"
  by (simp add: SetUIMessage_def strcpy_def shown_def split: if_splits)

lemma TextFormat_welcome:
  "TextFormat ''Welcome, %s!'' [ArgS u] = Some (''Welcome, '' @ u @ ''!'')"
  by simp

lemma TextFormat_bid_failed:
  "TextFormat ''Bid failed: $%.2f is not higher than current bid $%.2f'' [ArgF a, ArgF b]
     = Some (''Bid failed: $'' @ conv_2f a @ '' is not higher than current bid $'' @ conv_2f b)"
  by simp

lemma TextFormat_bid_placed:
  "TextFormat ''Bid of $%.2f placed successfully by %s!'' [ArgF a, ArgS u]
     = Some (''Bid of $'' @ conv_2f a @ '' placed successfully by '' @ u @ ''!'')"
  by simp

lemma tick_fields [simp]:
  "items (tick_message inp s) = items s" "itemCount (tick_message inp s) = itemCount s"
  "selectedItemIndex (tick_message inp s) = selectedItemIndex s"
  "currentScreen (tick_message inp s) = currentScreen s"
  "users (tick_message inp s) = users s" "users_file (tick_message inp s) = users_file s"
  "loggedInUsername (tick_message inp s) = loggedInUsername s"
  "bidAmountInput (tick_message inp s) = bidAmountInput s"
  "bidderNameInput (tick_message inp s) = bidderNameInput s"
  "signInUsernameInput (tick_message inp s) = signInUsernameInput s"
  "signInPasswordInput (tick_message inp s) = signInPasswordInput s"
  "signUpUsernameInput (tick_message inp s) = signUpUsernameInput s"
  "signUpPasswordInput (tick_message inp s) = signUpPasswordInput s"
  "signUpConfirmPasswordInput (tick_message inp s) = signUpConfirmPasswordInput s"
  by (simp_all add: tick_message_def Let_def)

lemma invariant_tick [simp]: "invariant (tick_message inp s) = invariant s"
  by (simp add: invariant_def boxes_ok_def rects_ok_def selection_ok_def)

lemma update_auth_menu_inv:
  assumes "invariant s" "currentScreen s = SCREEN_AUTH_MENU"
  shows "\<exists>s'. update_auth_menu inp s = Some s' \<and> invariant s'"
  using assms
  by (simp add: update_auth_menu_def Let_def invariant_def selection_ok_def SetUIMessage_fits)

lemma update_item_list_inv:
  assumes "invariant s" "currentScreen s = SCREEN_ITEM_LIST"
  shows "\<exists>s'. update_item_list inp s = Some s' \<and> invariant s'"
proof -
  have "\<And>i. find (\<lambda>i. CheckCollisionPointRec (GetMousePosition inp) (itemRect i))
                 [0 .. itemCount s - 1] = Some i \<Longrightarrow> 0 \<le> i \<and> i < itemCount s"
    by (auto simp: find_Some_iff)
  with assms show ?thesis
    by (auto simp: update_item_list_def Let_def invariant_def selection_ok_def
          SetUIMessage_fits
          split: option.splits)
qed

lemma item_at_Some:
  "length (items s) = 5 \<Longrightarrow> 0 \<le> i \<Longrightarrow> i < 3 \<Longrightarrow> item_at s i = Some (items s ! nat i)"
  by (simp add: item_at_def MAX_ITEMS_def)

lemma update_item_details_inv:
  assumes "invariant s" "currentScreen s = SCREEN_ITEM_DETAILS"
  shows "\<exists>s'. update_item_details inp s = Some s' \<and> invariant s'"
  using assms
  by (auto simp: update_item_details_def Let_def invariant_def selection_ok_def item_at_Some
        SetUIMessage_fits)


lemma strcpy_box: "box_ok box \<Longrightarrow> strcpy 32 (box_text box) = Some (box_text box)"
  using length_box_text [of box] by (simp add: strcpy_def)


lemma RegisterUser_fits:
  "length uname < 32 \<Longrightarrow>
     RegisterUser w uname password s =
       Some (if int (length (users s)) \<ge> MAX_USERS then
               (False, shown ''Cannot register: maximum user limit reached.'' s)
             else if UsernameExists (users s) uname then
               (False, shown ''Registration failed: Username already exists.'' s)
             else SaveUsers w
                    (s\<lparr>users := users s @
                        [\<lparr>username = uname, hashedPassword = HashPassword password\<rparr>]\<rparr>))"
  by (simp add: RegisterUser_def strcpy_def MAX_NAME_LENGTH_def SetUIMessage_fits)

lemma selection_ok_update [simp]:
  "selection_ok (users_update f5 s) = selection_ok s"
  "selection_ok (users_file_update f6 s) = selection_ok s"
  "selection_ok (shown m s) = selection_ok s"
  "selection_ok (ResetInputBoxes s) = selection_ok s"
  by (simp_all add: selection_ok_def)

lemma invariant_update [simp]:
  "invariant (users_update f5 s) = invariant s"
  "invariant (users_file_update f6 s) = invariant s"
  "invariant (shown m s) = invariant s"
  by (simp_all add: invariant_def)

lemma invariant_Reset: "invariant s \<Longrightarrow> invariant (ResetInputBoxes s)"
  by (simp add: invariant_def)

lemma login_click_inv:
  assumes inv: "invariant s1" and scr: "currentScreen s1 = SCREEN_SIGN_IN"
  shows "\<exists>s'. login_click s1 = Some s' \<and> invariant s'"
proof -
  from inv have b: "box_ok (signInUsernameInput s1)" "box_ok (signInPasswordInput s1)"
    by (simp_all add: invariant_def boxes_ok_def)
  from inv scr have "invariant (s1\<lparr>loggedInUsername := box_text (signInUsernameInput s1),
        currentScreen := SCREEN_ITEM_LIST\<rparr>)"
    by (simp add: invariant_def selection_ok_def)
  moreover have "length (''Welcome, '' @ box_text (signInUsernameInput s1) @ ''!'') < 100"
    using length_box_text [OF b(1)] by simp
  ultimately show ?thesis
    using inv b
    by (simp add: login_click_def cstr_box strcpy_box MAX_NAME_LENGTH_def invariant_Reset
          TextFormat_welcome SetUIMessage_fits del: TextFormat.simps)
qed

lemma to_menu_inv:
  "invariant t \<Longrightarrow> invariant (ResetInputBoxes (t\<lparr>currentScreen := SCREEN_AUTH_MENU\<rparr>))"
  by (simp add: invariant_def selection_ok_def)

lemma update_sign_in_inv:
  assumes inv: "invariant s" and scr: "currentScreen s = SCREEN_SIGN_IN"
  shows "\<exists>s'. update_sign_in inp s = Some s' \<and> invariant s'"
proof -
  from inv have b: "box_ok (signInUsernameInput s)" "box_ok (signInPasswordInput s)"
    by (simp_all add: invariant_def boxes_ok_def)
  from UpdateInputBox_ok [OF b(1)] obtain ubox q1 where
    u: "UpdateInputBox inp (char_queue inp) (signInUsernameInput s) = Some (ubox, q1)"
      "box_ok ubox" "rect ubox = rect (signInUsernameInput s)"
    by blast
  from UpdateInputBox_ok [OF b(2)] obtain pbox q2 where
    p: "UpdateInputBox inp q1 (signInPasswordInput s) = Some (pbox, q2)"
      "box_ok pbox" "rect pbox = rect (signInPasswordInput s)"
    by blast
  let ?s1 = "s\<lparr>signInUsernameInput := ubox, signInPasswordInput := pbox\<rparr>"
  from inv scr u p have inv1: "invariant ?s1" and scr1: "currentScreen ?s1 = SCREEN_SIGN_IN"
    by (simp_all add: invariant_def boxes_ok_def rects_ok_def selection_ok_def)
  from login_click_inv [OF inv1 scr1] obtain s2 where
    l: "login_click ?s1 = Some s2" "invariant s2" by blast
  show ?thesis
    using u p inv1 l by (simp add: update_sign_in_def Let_def to_menu_inv SetUIMessage_fits)
qed

text \<open>What a click on BID does in a state of the bid screen that satisfies the
  invariant: the bid is refused when the name is empty, when \<^verbatim>\<open>newBid <= currentBid\<close>,
  or when \<^verbatim>\<open>newBid\<close> is above 1000000000, the value of the literal
  \<^verbatim>\<open>999999999.0f\<close>; otherwise the bid and the bidder are stored in the selected item
  and the screen returns to the details. Every message fits \<^verbatim>\<open>uiMessage\<close> except,
  for some amounts, the one of a bid that is not higher.\<close>

lemma bid_click_result:
  assumes "invariant s" and "currentScreen s = SCREEN_PLACE_BID"
  shows "bid_click s =
     (let newBid = strtof (box_text (bidAmountInput s));
          bidder = box_text (bidderNameInput s);
          item = items s ! nat (selectedItemIndex s)
      in if bidder = [] then Some (shown ''Please enter your name to bid.'' s)
         else if fle newBid (currentBid item) then
           SetUIMessage
             (''Bid failed: $'' @ conv_2f newBid @ '' is not higher than current bid $''
              @ conv_2f (currentBid item)) s
         else if fgt newBid (Finite 1000000000) then Some (shown ''Bid amount too large!'' s)
         else
           Some (shown (''Bid of $'' @ conv_2f newBid @ '' placed successfully by '' @ bidder
                        @ ''!'')
                   (s\<lparr>items := (items s)
                          [nat (selectedItemIndex s) :=
                             item\<lparr>currentBid := newBid, highestBidder := bidder\<rparr>],
                       currentScreen := SCREEN_ITEM_DETAILS\<rparr>)))"
proof -
  from assms have b: "box_ok (bidAmountInput s)" "box_ok (bidderNameInput s)"
    and sel: "0 \<le> selectedItemIndex s" "selectedItemIndex s < 3" "length (items s) = 5"
    by (simp_all add: invariant_def boxes_ok_def selection_ok_def)
  have fits: "length (''Bid of $'' @ conv_2f (strtof (box_text (bidAmountInput s)))
                @ '' placed successfully by '' @ box_text (bidderNameInput s) @ ''!'') < 100"
    using conv_2f_strtof_length [of "box_text (bidAmountInput s)"] length_box_text [OF b(2)]
    by simp
  from b sel fits show ?thesis
    by (simp add: bid_click_def Let_def cstr_box strcpy_box MAX_BIDDER_LENGTH_def item_at_Some
          f32_ceiling TextFormat_bid_failed TextFormat_bid_placed SetUIMessage_fits
          del: TextFormat.simps)
qed

lemma bid_click_inv:
  assumes inv: "invariant s1" and scr: "currentScreen s1 = SCREEN_PLACE_BID"
    and res: "bid_click s1 = Some s'"
  shows "invariant s' \<and> selectedItemIndex s' = selectedItemIndex s1"
proof -
  from inv scr have sel: "0 \<le> selectedItemIndex s1" "selectedItemIndex s1 < 3" "length (items s1) = 5"
    by (simp_all add: invariant_def selection_ok_def)
  have "\<And>f. invariant (s1\<lparr>items := (items s1)[nat (selectedItemIndex s1) := f],
                 currentScreen := SCREEN_ITEM_DETAILS\<rparr>)"
    using inv sel by (simp add: invariant_def selection_ok_def)
  with res inv show ?thesis
    unfolding bid_click_result [OF inv scr] Let_def
    by (auto split: if_splits dest!: SetUIMessage_SomeD)
qed

text \<open>A click on BID is outside both boxes and outside Cancel: the boxes lose the focus
  and keep their texts, and the frame does what the click does.\<close>

lemma update_place_bid_click:
  assumes inv: "invariant s" and click: "clicked inp (Rectangle 280 480 100 40)"
  shows "update_place_bid inp s =
     bid_click (s\<lparr>bidAmountInput :=
                     (bidAmountInput s)\<lparr>active := False, borderColor := DARKGRAY_CUSTOM\<rparr>,
                   bidderNameInput :=
                     (bidderNameInput s)\<lparr>active := False, borderColor := DARKGRAY_CUSTOM\<rparr>\<rparr>)"
proof -
  from inv have r: "rect (bidAmountInput s) = Rectangle 300 300 200 40"
      "rect (bidderNameInput s) = Rectangle 300 380 200 40"
    by (simp_all add: invariant_def rects_ok_def)
  from click have pressed: "IsMouseButtonPressed inp"
    and y: "snd (GetMousePosition inp) \<ge> 480" and x: "fst (GetMousePosition inp) < 380"
    by (simp_all add: clicked_def IsMouseOver_def CheckCollisionPointRec_def)
  have out: "\<not> CheckCollisionPointRec (GetMousePosition inp) (rect (bidAmountInput s))"
      "\<not> CheckCollisionPointRec (GetMousePosition inp) (rect (bidderNameInput s))"
    using y by (simp_all add: r CheckCollisionPointRec_def)
  have nocancel: "\<not> clicked inp (Rectangle 420 480 100 40)"
    using x by (simp add: clicked_def IsMouseOver_def CheckCollisionPointRec_def)
  from click nocancel show ?thesis
    by (simp add: update_place_bid_def UpdateInputBox_outside [OF pressed] out Let_def
          screenWidth_def)
qed

lemma update_place_bid_inv:
  assumes inv: "invariant s" and scr: "currentScreen s = SCREEN_PLACE_BID"
    and res: "update_place_bid inp s = Some s'"
  shows "invariant s'"
proof -
  from inv have b: "box_ok (bidAmountInput s)" "box_ok (bidderNameInput s)"
    by (simp_all add: invariant_def boxes_ok_def)
  from UpdateInputBox_ok [OF b(1)] obtain abox q1 where
    a: "UpdateInputBox inp (char_queue inp) (bidAmountInput s) = Some (abox, q1)"
      "box_ok abox" "rect abox = rect (bidAmountInput s)"
      "isPassword abox = isPassword (bidAmountInput s)"
    by blast
  from UpdateInputBox_ok [OF b(2)] obtain nbox q2 where
    n: "UpdateInputBox inp q1 (bidderNameInput s) = Some (nbox, q2)"
      "box_ok nbox" "rect nbox = rect (bidderNameInput s)"
      "isPassword nbox = isPassword (bidderNameInput s)"
    by blast
  let ?s1 = "s\<lparr>bidAmountInput := abox, bidderNameInput := nbox\<rparr>"
  from inv scr a n have inv1: "invariant ?s1" and scr1: "currentScreen ?s1 = SCREEN_PLACE_BID"
    by (simp_all add: invariant_def boxes_ok_def rects_ok_def selection_ok_def)
  have to_details: "\<And>t. invariant t \<Longrightarrow> selectedItemIndex t = selectedItemIndex s \<Longrightarrow>
           invariant (t\<lparr>currentScreen := SCREEN_ITEM_DETAILS\<rparr>)"
    using inv scr by (simp add: invariant_def selection_ok_def)
  from res a n obtain s2 where
    s2: "(if clicked inp (Rectangle 280 480 100 40) then bid_click ?s1 else Some ?s1) = Some s2"
    and rest: "(if clicked inp (Rectangle 420 480 100 40)
                then SetUIMessage [] (s2\<lparr>currentScreen := SCREEN_ITEM_DETAILS\<rparr>)
                else Some s2) = Some s'"
    by (auto simp: update_place_bid_def Let_def screenWidth_def Option.bind_eq_Some_conv)
  have "invariant s2 \<and> selectedItemIndex s2 = selectedItemIndex s"
  proof (cases "clicked inp (Rectangle 280 480 100 40)")
    case True
    with s2 bid_click_inv [OF inv1 scr1, of s2] show ?thesis by simp
  next
    case False
    with s2 inv1 show ?thesis by auto
  qed
  with rest to_details show ?thesis
    by (auto simp: SetUIMessage_fits split: if_splits)
qed

text \<open>Without a click on BID the frame of the bid screen is defined.\<close>

lemma update_place_bid_defined:
  assumes inv: "invariant s" and noclick: "\<not> clicked inp (Rectangle 280 480 100 40)"
  shows "update_place_bid inp s \<noteq> None"
proof -
  from inv have b: "box_ok (bidAmountInput s)" "box_ok (bidderNameInput s)"
    by (simp_all add: invariant_def boxes_ok_def)
  from UpdateInputBox_ok [OF b(1)] obtain abox q1 where
    a: "UpdateInputBox inp (char_queue inp) (bidAmountInput s) = Some (abox, q1)"
    by blast
  from UpdateInputBox_ok [OF b(2)] obtain nbox q2 where
    n: "UpdateInputBox inp q1 (bidderNameInput s) = Some (nbox, q2)"
    by blast
  from a n noclick show ?thesis
    by (simp add: update_place_bid_def Let_def screenWidth_def SetUIMessage_fits)
qed

lemma invariant_screen:
  "invariant t \<Longrightarrow> scr \<noteq> SCREEN_ITEM_DETAILS \<Longrightarrow> scr \<noteq> SCREEN_PLACE_BID \<Longrightarrow>
     invariant (t\<lparr>currentScreen := scr\<rparr>)"
  by (simp add: invariant_def selection_ok_def)

lemma register_click_inv:
  assumes inv: "invariant s1" and scr: "currentScreen s1 = SCREEN_SIGN_UP"
  shows "\<exists>s'. register_click inp s1 = Some s' \<and> invariant s'"
proof -
  from inv have b: "box_ok (signUpUsernameInput s1)" "box_ok (signUpPasswordInput s1)"
      "box_ok (signUpConfirmPasswordInput s1)"
    by (simp_all add: invariant_def boxes_ok_def)
  have len: "length (box_text (signUpUsernameInput s1)) < 32"
    using length_box_text [OF b(1)] by simp
  from inv b show ?thesis
    by (simp add: register_click_def cstr_box RegisterUser_fits [OF len] SaveUsers_def
          invariant_Reset invariant_screen SetUIMessage_fits)
qed

lemma update_sign_up_inv:
  assumes inv: "invariant s" and scr: "currentScreen s = SCREEN_SIGN_UP"
  shows "\<exists>s'. update_sign_up inp s = Some s' \<and> invariant s'"
proof -
  from inv have b: "box_ok (signUpUsernameInput s)" "box_ok (signUpPasswordInput s)"
      "box_ok (signUpConfirmPasswordInput s)"
    by (simp_all add: invariant_def boxes_ok_def)
  from UpdateInputBox_ok [OF b(1)] obtain ubox q1 where
    u: "UpdateInputBox inp (char_queue inp) (signUpUsernameInput s) = Some (ubox, q1)"
      "box_ok ubox" "rect ubox = rect (signUpUsernameInput s)"
    by blast
  from UpdateInputBox_ok [OF b(2)] obtain pbox q2 where
    p: "UpdateInputBox inp q1 (signUpPasswordInput s) = Some (pbox, q2)"
      "box_ok pbox" "rect pbox = rect (signUpPasswordInput s)"
    by blast
  from UpdateInputBox_ok [OF b(3)] obtain cbox q3 where
    c: "UpdateInputBox inp q2 (signUpConfirmPasswordInput s) = Some (cbox, q3)"
      "box_ok cbox" "rect cbox = rect (signUpConfirmPasswordInput s)"
    by blast
  let ?s1 = "s\<lparr>signUpUsernameInput := ubox, signUpPasswordInput := pbox,
                  signUpConfirmPasswordInput := cbox\<rparr>"
  from inv scr u p c have inv1: "invariant ?s1" and scr1: "currentScreen ?s1 = SCREEN_SIGN_UP"
    by (simp_all add: invariant_def boxes_ok_def rects_ok_def selection_ok_def)
  from register_click_inv [OF inv1 scr1] obtain s2 where
    l: "register_click inp ?s1 = Some s2" "invariant s2" by blast
  show ?thesis
    using u p c inv1 l by (simp add: update_sign_up_def Let_def to_menu_inv SetUIMessage_fits)
qed


lemma draw_ok: "invariant s \<Longrightarrow> draw inp s = Some ()"
proof -
  assume inv: "invariant s"
  then have items: "\<forall>i\<in>set (draw_items s). 0 \<le> i \<and> i < 3"
    by (cases "currentScreen s") (auto simp: draw_items_def invariant_def selection_ok_def)
  from inv have "length (items s) = 5" by (simp add: invariant_def selection_ok_def)
  with items have "\<forall>i\<in>set (draw_items s). item_at s i \<noteq> None"
    by (auto simp: item_at_def MAX_ITEMS_def)
  moreover from inv have "\<forall>box\<in>set (draw_boxes s). DrawInputBox inp box \<noteq> None"
    by (cases "currentScreen s")
       (simp_all add: draw_boxes_def invariant_def boxes_ok_def DrawInputBox_ok)
  ultimately show ?thesis by (simp add: draw_def list_all_iff)
qed

text \<open>A frame that is defined keeps the invariant, and on every screen but the bid
  screen the frame is defined.\<close>

lemma frame_update_defined:
  assumes "invariant s" and "currentScreen s \<noteq> SCREEN_PLACE_BID"
  shows "\<exists>s'. frame_update inp s = Some s' \<and> invariant s'"
proof -
  from assms have inv: "invariant (tick_message inp s)" by simp
  show ?thesis
  proof (cases "currentScreen s")
    case SCREEN_AUTH_MENU
    with update_auth_menu_inv [OF inv] show ?thesis by (simp add: frame_update_def Let_def)
  next
    case SCREEN_SIGN_IN
    with update_sign_in_inv [OF inv] show ?thesis by (simp add: frame_update_def Let_def)
  next
    case SCREEN_SIGN_UP
    with update_sign_up_inv [OF inv] show ?thesis by (simp add: frame_update_def Let_def)
  next
    case SCREEN_ITEM_LIST
    with update_item_list_inv [OF inv] show ?thesis by (simp add: frame_update_def Let_def)
  next
    case SCREEN_ITEM_DETAILS
    with update_item_details_inv [OF inv] show ?thesis by (simp add: frame_update_def Let_def)
  next
    case SCREEN_PLACE_BID
    with assms(2) show ?thesis by simp
  qed
qed

lemma frame_update_inv:
  assumes "invariant s" and "frame_update inp s = Some s'"
  shows "invariant s'"
proof (cases "currentScreen s = SCREEN_PLACE_BID")
  case True
  from assms(1) have inv: "invariant (tick_message inp s)" by simp
  from True have scr: "currentScreen (tick_message inp s) = SCREEN_PLACE_BID"
    by simp
  from assms(2) True have "update_place_bid inp (tick_message inp s) = Some s'"
    by (simp add: frame_update_def Let_def)
  with inv scr show ?thesis by (rule update_place_bid_inv)
next
  case False
  with frame_update_defined [OF assms(1), of inp] assms(2) show ?thesis by auto
qed

lemma frame_eq_update: "invariant s \<Longrightarrow> frame inp s = frame_update inp s"
proof (cases "frame_update inp s")
  case None
  then show ?thesis by (simp add: frame_def)
next
  case (Some s')
  assume "invariant s"
  from frame_update_inv [OF this Some] Some show ?thesis by (simp add: frame_def draw_ok)
qed

lemma frame_inv: "invariant s \<Longrightarrow> frame inp s = Some s' \<Longrightarrow> invariant s'"
  using frame_update_inv [of s inp s'] by (simp add: frame_eq_update)

lemma frame_defined:
  "invariant s \<Longrightarrow> currentScreen s \<noteq> SCREEN_PLACE_BID \<Longrightarrow> \<exists>s'. frame inp s = Some s'"
  using frame_update_defined [of s inp] by (auto simp: frame_eq_update)

lemma new_box_ok: "box_ok (new_box r m)"
  by (simp add: box_ok_def new_box_def MAX_INPUT_CHARS_def)

lemma new_box_fields [simp]: "rect (new_box r m) = r" "isPassword (new_box r m) = m"
  by (simp_all add: new_box_def)

lemma init_inv: "init_state file = Some s \<Longrightarrow> invariant s"
  by (auto simp: init_state_def LoadUsers_def InitAuctionData_def globals_def invariant_def
        boxes_ok_def rects_ok_def selection_ok_def new_box_ok MAX_ITEMS_def screenWidth_def
        Option.bind_eq_Some_conv
      split: option.splits)

lemma reachable_invariant: "reachable s \<Longrightarrow> invariant s"
proof (induction rule: reachable.induct)
  case (start f s)
  then show ?case by (rule init_inv)
next
  case (step s inp s')
  then show ?case by (simp add: frame_inv)
qed

lemma reachable_run: "reachable s \<Longrightarrow> run inps s = Some s' \<Longrightarrow> reachable s'"
proof (induction inps arbitrary: s)
  case Nil
  then show ?case by simp
next
  case (Cons inp inps)
  then show ?case by (auto split: option.splits intro: reachable.step)
qed

text \<open>Keys outside 32..125 and keys typed into a full box are dropped; backspace on an
  empty box changes nothing.\<close>

lemma read_chars_ignored:
  "key > 0 \<Longrightarrow> key < 32 \<or> key > 125 \<or> letterCount box \<ge> MAX_INPUT_CHARS \<Longrightarrow>
     read_chars (key # queue) box = read_chars queue box"
  by auto

lemma backspace_on_empty:
  "active box \<Longrightarrow> \<not> IsMouseButtonPressed inp \<Longrightarrow> KEY_BACKSPACE_pressed inp \<Longrightarrow>
   \<not> KEY_ENTER_pressed inp \<Longrightarrow> letterCount box = 0 \<Longrightarrow>
     UpdateInputBox inp [] box = Some (box, [])"
  by (simp add: UpdateInputBox_def)

subsection \<open>The password hash\<close>

lemma word33: "push_bit 5 (h::32 word) + h = h * 33"
  by (simp add: push_bit_eq_mult)

lemma uint_hash_step:
  "uint (h * 33 + word_of_int k :: 32 word) = (uint h * 33 + k) mod 2 ^ 32"
proof -
  have "uint (h * 33 + word_of_int k :: 32 word)
          = uint (word_of_int (uint h * 33 + k) :: 32 word)"
    by simp
  also have "\<dots> = (uint h * 33 + k) mod 2 ^ 32"
    by (simp only: uint_word_of_int) simp
  finally show ?thesis .
qed

lemma HashPassword_loop_foldl:
  "uint (HashPassword_loop h p) =
     foldl (\<lambda>hash c. (hash * 33 + char_to_int c) mod 2 ^ 32) (uint h) p"
proof (induction p arbitrary: h)
  case Nil
  show ?case by simp
next
  case (Cons c p)
  show ?case
    by (simp only: HashPassword_loop.simps word33 Cons.IH uint_hash_step foldl_Cons)
qed

text \<open>For characters up to 127 the value folded in is the byte itself.\<close>

lemma HashPassword_ascii:
  assumes "list_all (\<lambda>c. of_char c < (128::nat)) p"
  shows "uint (HashPassword p)
           = foldl (\<lambda>hash c. (hash * 33 + int (of_char c)) mod 2 ^ 32) 5381 p"
proof -
  have "foldl (\<lambda>hash c. (hash * 33 + char_to_int c) mod 2 ^ 32) h p
          = foldl (\<lambda>hash c. (hash * 33 + int (of_char c)) mod 2 ^ 32) h p" for h
    using assms by (induction p arbitrary: h) (simp_all add: char_to_int_def)
  then show ?thesis
    by (simp add: HashPassword_def HashPassword_loop_foldl)
qed

text \<open>
  C5. \<open>HashPassword\<close> is a function of the password alone, and it is the rolling hash
  that starts from the seed 5381 and folds in each byte \<open>c\<close> in order as
  \<open>hash * 33 + c\<close> modulo \<open>2 ^ 32\<close>.
\<close>

theorem C5_HashPassword_rolling_hash:
  "uint (HashPassword p) = rolling_hash_spec p \<and> (\<forall>q. q = p \<longrightarrow> HashPassword q = HashPassword p)"
  by (simp add: HashPassword_def rolling_hash_spec_def HashPassword_loop_foldl)

theorem C5_HashPassword_rolling_hash_witness:
  "uint (HashPassword ''ab'') = rolling_hash_spec ''ab''
     \<and> HashPassword ''ab'' = 5863208"
  using C5_HashPassword_rolling_hash [of "''ab''"]
  by (simp add: HashPassword_def char_to_int_def)

subsection \<open>Registration and sign-in\<close>

lemma AuthenticateUser_loop_append:
  "AuthenticateUser_loop (us @ vs) uname h =
     (AuthenticateUser_loop us uname h \<or> AuthenticateUser_loop vs uname h)"
  by (induction us) auto

lemma SaveUsers_loop_lines:
  "SaveUsers_loop us acc = acc @ users_file_lines us"
  by (induction us arbitrary: acc) (simp_all add: users_file_lines_def)

text \<open>A saved store of plain user names is loaded back as it was.\<close>

lemma digit_char: "0 \<le> n \<Longrightarrow> n < 10 \<Longrightarrow> isdigit (char_of (48 + n)) \<and> digit_val (char_of (48 + n)) = n"
proof -
  assume "0 \<le> n" "n < 10"
  then have "n \<in> set [0..9]"
    by simp
  then show ?thesis
    by (auto simp: upto.simps isdigit_def digit_val_def char_of_numeral)
qed

lemma utoa_digits: "0 \<le> n \<Longrightarrow> utoa n \<noteq> [] \<and> list_all isdigit (utoa n) \<and> digits_val 10 (utoa n) = n"
proof (induction n rule: utoa.induct)
  case (1 n)
  show ?case
  proof (cases "n < 10")
    case True
    with 1 digit_char [of n] show ?thesis
      by (simp add: utoa.simps [of n] digits_val_def)
  next
    case False
    with 1 have ih: "utoa (n div 10) \<noteq> []" "list_all isdigit (utoa (n div 10))"
        "digits_val 10 (utoa (n div 10)) = n div 10"
      by simp_all
    have "0 \<le> n mod 10" "n mod 10 < 10" by simp_all
    from digit_char [OF this] ih False show ?thesis
      by (simp add: utoa.simps [of n] digits_val_def)
  qed
qed

lemma newline_space: "isspace (CHR 0x0A)" "\<not> isdigit (CHR 0x0A)" "isspace CHR '' ''"
  by (simp_all add: isspace_def isdigit_def)

lemma digit_not_space: "isdigit c \<Longrightarrow> \<not> isspace c \<and> c \<noteq> CHR ''-'' \<and> c \<noteq> CHR ''+''"
  by (auto simp: isdigit_def isspace_def)

lemma fscanf_line:
  assumes "plain_name uname"
  shows "fscanf_s_u (uname @ '' '' @ utoa (uint h) @ CHR 0x0A # rest)
           = Scanned uname h (CHR 0x0A # rest)"
proof -
  let ?ds = "utoa (uint h)"
  from utoa_digits [of "uint h"] have ds: "?ds \<noteq> []" "list_all isdigit ?ds"
      "digits_val 10 ?ds = uint h"
    by simp_all
  from ds obtain d ds' where dcons: "?ds = d # ds'" by (cases ?ds) auto
  with ds(2) have d: "isdigit d" by simp
  note dd = digit_not_space [OF d]
  from assms obtain c cs where ccons: "uname = c # cs" by (cases uname) (auto simp: plain_name_def)
  from assms have nosp: "\<forall>x\<in>set uname. \<not> isspace x" and nonul: "\<forall>x\<in>set uname. x \<noteq> CHR 0x00"
    and len: "length uname < MAX_NAME_LENGTH"
    by (auto simp: plain_name_def list_all_iff)
  have a: "dropWhile isspace (uname @ '' '' @ ?ds @ CHR 0x0A # rest)
             = uname @ '' '' @ ?ds @ CHR 0x0A # rest"
    using nosp ccons by simp
  have tok: "takeWhile (\<lambda>c. \<not> isspace c) (uname @ '' '' @ ?ds @ CHR 0x0A # rest) = uname"
    using nosp by (simp add: takeWhile_append2 newline_space)
  have b1: "dropWhile (\<lambda>c. \<not> isspace c) (uname @ '' '' @ ?ds @ CHR 0x0A # rest)
             = '' '' @ ?ds @ CHR 0x0A # rest"
    using nosp by (simp add: dropWhile_append2 newline_space)
  have b: "dropWhile isspace ('' '' @ ?ds @ CHR 0x0A # rest) = ?ds @ CHR 0x0A # rest"
    using dd by (simp add: newline_space dcons)
  have tk: "takeWhile isdigit (?ds @ CHR 0x0A # rest) = ?ds"
    using ds(2) by (simp add: takeWhile_append2 list_all_iff newline_space)
  have dr: "dropWhile isdigit (?ds @ CHR 0x0A # rest) = CHR 0x0A # rest"
    using ds(2) by (simp add: dropWhile_append2 list_all_iff newline_space)
  have hd: "hd (?ds @ CHR 0x0A # rest) = d" "?ds @ CHR 0x0A # rest \<noteq> []"
    by (simp_all add: dcons)
  have nm: "takeWhile (\<lambda>c. c \<noteq> CHR 0x00) uname = uname"
    using nonul by (simp add: takeWhile_eq_all_conv)
  have lt: "\<not> uint h \<ge> 2 ^ 32"
    using uint_bounded [of h] by simp
  show ?thesis
    unfolding fscanf_s_u_def Let_def a tok b1 b hd
    using dd ds(1,3) len lt assms
    by (simp add: tk dr nm plain_name_def)
qed

lemma fscanf_newline: "fscanf_s_u (CHR 0x0A # f) = fscanf_s_u f"
  by (simp add: fscanf_s_u_def newline_space)

lemma fscanf_empty: "fscanf_s_u [] = Stopped"
  by (simp add: fscanf_s_u_def)

lemma LoadUsers_loop_newline: "LoadUsers_loop k (CHR 0x0A # f) = LoadUsers_loop k f"
  by (cases k) (simp_all add: fscanf_newline)

lemma load_saved_lines:
  "list_all (\<lambda>u. plain_name (username u)) us \<Longrightarrow> length us \<le> k \<Longrightarrow>
     LoadUsers_loop k (users_file_lines us) = Some us"
proof (induction us arbitrary: k)
  case Nil
  then show ?case by (cases k) (simp_all add: users_file_lines_def fscanf_empty)
next
  case (Cons u us)
  then obtain j where k: "k = Suc j" and j: "length us \<le> j" by (cases k) auto
  from Cons.prems have pn: "plain_name (username u)" by simp
  have "users_file_lines (u # us)
          = username u @ '' '' @ utoa (uint (hashedPassword u)) @ CHR 0x0A # users_file_lines us"
    by (simp add: users_file_lines_def)
  then have "LoadUsers_loop k (users_file_lines (u # us))
      = map_option ((#) \<lparr>username = username u, hashedPassword = hashedPassword u\<rparr>)
          (LoadUsers_loop j (CHR 0x0A # users_file_lines us))"
    by (simp add: k fscanf_line [OF pn, simplified])
  also have "\<dots> = Some (u # us)"
    using Cons.IH [OF _ j] Cons.prems by (simp add: LoadUsers_loop_newline)
  finally show ?case .
qed


lemma save_load_round_trip:
  assumes "list_all (\<lambda>u. plain_name (username u)) (users s)"
    and "int (length (users s)) \<le> MAX_USERS"
  shows "LoadUsers (snd (SaveUsers True s)) = Some (True, snd (SaveUsers True s))"
proof -
  from assms(2) have "length (users s) \<le> nat MAX_USERS" by simp
  from load_saved_lines [OF assms(1) this] show ?thesis
    by (simp add: SaveUsers_def LoadUsers_def SaveUsers_loop_lines)
qed

text \<open>
  C3. When the user name \<open>u\<close> is not in the store, the store is below its capacity and
  \<open>u\<close> fits the 32 bytes of a \<^verbatim>\<open>username\<close> field (every caller passes the text of an
  input box, at most 20 characters), \<open>RegisterUser u p\<close> returns and
  \<open>AuthenticateUser u p\<close> on the store it leaves is true, whether or not the file could
  be written.
\<close>

theorem C3_register_then_authenticate:
  assumes "\<not> UsernameExists (users s) u" and "int (length (users s)) < MAX_USERS"
    and "length u < MAX_NAME_LENGTH"
  shows "\<exists>ok s'. RegisterUser w u p s = Some (ok, s') \<and> AuthenticateUser (users s') u p"
  using assms
  by (auto simp: RegisterUser_def strcpy_def SaveUsers_def AuthenticateUser_def
        AuthenticateUser_loop_append)

text \<open>C3 at a concrete input: the first registration on an empty store.\<close>

theorem C3_witness:
  "\<not> UsernameExists (users (globals None)) ''alice''
   \<and> int (length (users (globals None))) < MAX_USERS
   \<and> length ''alice'' < MAX_NAME_LENGTH
   \<and> (\<exists>ok s'. RegisterUser True ''alice'' ''password1'' (globals None) = Some (ok, s')
          \<and> AuthenticateUser (users s') ''alice'' ''password1'')"
  using C3_register_then_authenticate [of "globals None" "''alice''" True "''password1''"]
  by (simp add: globals_def MAX_USERS_def MAX_NAME_LENGTH_def)

text \<open>
  C6. \<open>RegisterUser\<close> returns failure and changes neither the users in memory nor the
  file when the store is full or the name exists. Otherwise (the name fitting its field)
  it appends one user with the hash of the password; when the file can be opened for
  writing it returns success and the file holds one line per user of the whole store, and
  when it cannot it returns failure and the file is as before.
\<close>

theorem C6_RegisterUser:
  "(int (length (users s)) \<ge> MAX_USERS \<or> UsernameExists (users s) u \<longrightarrow>
      (\<exists>s'. RegisterUser w u p s = Some (False, s') \<and> users s' = users s
            \<and> users_file s' = users_file s))
   \<and> (int (length (users s)) < MAX_USERS \<and> \<not> UsernameExists (users s) u
        \<and> length u < MAX_NAME_LENGTH \<longrightarrow>
      (\<exists>s'. RegisterUser w u p s = Some (w, s')
            \<and> users s' = users s @ [\<lparr>username = u, hashedPassword = HashPassword p\<rparr>]
            \<and> users_file s' = (if w then Some (users_file_lines (users s')) else users_file s)))"
  by (auto simp: RegisterUser_def strcpy_def SaveUsers_def SaveUsers_loop_lines
        SetUIMessage_def)

text \<open>C6 at concrete inputs: a taken name, a new name with a writable file, and a new
  name with a file that cannot be opened.\<close>

theorem C6_witness:
  "UsernameExists (users ((globals None)\<lparr>users := [alice]\<rparr>)) ''alice''
   \<and> (\<exists>s'. RegisterUser True ''alice'' ''password2'' ((globals None)\<lparr>users := [alice]\<rparr>)
               = Some (False, s')
          \<and> users s' = [alice] \<and> users_file s' = None)
   \<and> int (length (users (globals None))) < MAX_USERS
   \<and> \<not> UsernameExists (users (globals None)) ''alice''
   \<and> length ''alice'' < MAX_NAME_LENGTH
   \<and> (\<exists>s'. RegisterUser True ''alice'' ''password1'' (globals None) = Some (True, s')
          \<and> users s' = [alice] \<and> users_file s' = Some (users_file_lines [alice]))
   \<and> (\<exists>s'. RegisterUser False ''alice'' ''password1'' (globals None) = Some (False, s')
          \<and> users s' = [alice] \<and> users_file s' = None)"
  using C6_RegisterUser [of "(globals None)\<lparr>users := [alice]\<rparr>" "''alice''" True "''password2''"]
    C6_RegisterUser [of "globals None" "''alice''" True "''password1''"]
    C6_RegisterUser [of "globals None" "''alice''" False "''password1''"]
  by (auto simp: globals_def alice_def MAX_USERS_def MAX_NAME_LENGTH_def)

subsection \<open>Screens\<close>

text \<open>
  C9. In every reachable state whose screen is the bid screen, the selected index is at
  least 0 and below \<open>itemCount\<close>, which is at most \<open>MAX_ITEMS\<close>; so the reads of
  \<^verbatim>\<open>items[selectedItemIndex]\<close> in the update, which follows the update of the message
  timer, and in the drawing pass are in bounds. If the iteration of the loop is undefined
  all the same, then BID was clicked and the message of the refused bid does not fit the
  100 bytes of \<^verbatim>\<open>uiMessage\<close>.
\<close>

theorem C9_selected_item_in_bounds:
  assumes "reachable s" and "currentScreen s = SCREEN_PLACE_BID"
  shows "0 \<le> selectedItemIndex s \<and> selectedItemIndex s < itemCount s
         \<and> itemCount s \<le> MAX_ITEMS
         \<and> item_at s (selectedItemIndex s) \<noteq> None
         \<and> item_at (tick_message inp s) (selectedItemIndex (tick_message inp s)) \<noteq> None
         \<and> (\<forall>i \<in> set (draw_items s). item_at s i \<noteq> None)
         \<and> (frame inp s = None \<longrightarrow>
               clicked inp (Rectangle 280 480 100 40)
               \<and> (\<exists>m. TextFormat ''Bid failed: $%.2f is not higher than current bid $%.2f''
                         [ArgF (strtof (box_text (bidAmountInput s))),
                          ArgF (currentBid (items s ! nat (selectedItemIndex s)))] = Some m
                      \<and> 100 \<le> length m))"
proof -
  from assms(1) have inv: "invariant s" by (rule reachable_invariant)
  with assms(2) have sel: "0 \<le> selectedItemIndex s" "selectedItemIndex s < 3"
    and n: "itemCount s = 3" and len: "length (items s) = 5"
    by (simp_all add: invariant_def selection_ok_def)
  from item_at_Some [OF len sel] have at: "item_at s (selectedItemIndex s) \<noteq> None" by simp
  from sel len have at': "item_at (tick_message inp s) (selectedItemIndex (tick_message inp s)) \<noteq> None"
    by (simp add: item_at_def MAX_ITEMS_def)
  from draw_ok [OF inv, of inp] have dr: "\<forall>i \<in> set (draw_items s). item_at s i \<noteq> None"
    by (simp add: draw_def list_all_iff split: if_splits)
  have und: "clicked inp (Rectangle 280 480 100 40)
       \<and> (\<exists>m. TextFormat ''Bid failed: $%.2f is not higher than current bid $%.2f''
                 [ArgF (strtof (box_text (bidAmountInput s))),
                  ArgF (currentBid (items s ! nat (selectedItemIndex s)))] = Some m
              \<and> 100 \<le> length m)"
    if none: "frame inp s = None"
  proof -
    let ?t = "tick_message inp s"
    let ?s1 = "?t\<lparr>bidAmountInput :=
                     (bidAmountInput ?t)\<lparr>active := False, borderColor := DARKGRAY_CUSTOM\<rparr>,
                   bidderNameInput :=
                     (bidderNameInput ?t)\<lparr>active := False, borderColor := DARKGRAY_CUSTOM\<rparr>\<rparr>"
    from inv have invt: "invariant ?t" by simp
    from none inv assms(2) have upd: "update_place_bid inp ?t = None"
      by (simp add: frame_eq_update frame_update_def Let_def)
    with update_place_bid_defined [OF invt, of inp] have click: "clicked inp (Rectangle 280 480 100 40)"
      by auto
    from invt assms(2) have inv1: "invariant ?s1" and scr1: "currentScreen ?s1 = SCREEN_PLACE_BID"
      by (simp_all add: invariant_def boxes_ok_def rects_ok_def selection_ok_def box_ok_def)
    from upd update_place_bid_click [OF invt click] have "bid_click ?s1 = None" by simp
    then have "100 \<le> length (''Bid failed: $'' @ conv_2f (strtof (box_text (bidAmountInput s)))
                 @ '' is not higher than current bid $''
                 @ conv_2f (currentBid (items s ! nat (selectedItemIndex s))))"
      unfolding bid_click_result [OF inv1 scr1] Let_def
      by (simp add: SetUIMessage_None box_text_def split: if_splits)
    with click show ?thesis by (simp only: TextFormat_bid_failed) simp
  qed
  from at at' dr und sel n show ?thesis by (simp add: MAX_ITEMS_def)
qed

text \<open>
  C8. From the details screen, whatever the input of the frame, the items are unchanged,
  the selection is unchanged if the screen stays, and when the selected item is closed the
  next screen is not the bid screen: the bid screen is entered only from an open item.
\<close>

theorem C8_closed_item_no_place_bid:
  assumes "reachable s" and "currentScreen s = SCREEN_ITEM_DETAILS"
  shows "\<exists>s' item. frame inp s = Some s' \<and> item_at s (selectedItemIndex s) = Some item
           \<and> items s' = items s
           \<and> (currentScreen s' = SCREEN_ITEM_DETAILS \<longrightarrow> selectedItemIndex s' = selectedItemIndex s)
           \<and> (auctionClosed item \<longrightarrow> currentScreen s' \<noteq> SCREEN_PLACE_BID)"
proof -
  from assms(1) have inv: "invariant s" by (rule reachable_invariant)
  with assms(2) have sel: "0 \<le> selectedItemIndex s" "selectedItemIndex s < 3"
      "length (items s) = 5"
    by (simp_all add: invariant_def selection_ok_def)
  then have it: "\<And>inp. item_at (tick_message inp s) (selectedItemIndex s)
       = Some (items s ! nat (selectedItemIndex s))"
     "item_at s (selectedItemIndex s) = Some (items s ! nat (selectedItemIndex s))"
    by (simp_all add: item_at_def MAX_ITEMS_def)
  have "frame inp s = frame_update inp s" using inv by (rule frame_eq_update)
  with assms(2) sel it show ?thesis
    by (simp add: frame_update_def update_item_details_def Let_def SetUIMessage_fits)
qed

text \<open>On the sign-up screen, a click on Register (the rectangle at 320, 410 of size 160
  by 50) while the text of the user name field is shorter than 3 or the text of the
  password field shorter than 5 shows the validation message, changes neither the users
  nor the file, and leaves the screen at sign-up. The text is what \<^verbatim>\<open>strlen\<close>
  measures, the bytes of the buffer up to the first NUL; it is what the user typed only
  as long as no earlier text shows through.\<close>

lemma short_text_rejected:
  assumes "reachable s" and "currentScreen s = SCREEN_SIGN_UP"
    and "clicked inp (Rectangle 320 410 160 50)"
    and "length (box_text (signUpUsernameInput s)) < 3
         \<or> length (box_text (signUpPasswordInput s)) < 5"
  shows "\<exists>s'. frame inp s = Some s' \<and> currentScreen s' = SCREEN_SIGN_UP
           \<and> users s' = users s \<and> users_file s' = users_file s
           \<and> uiMessage s' = ''Username (min 3 chars) / Password (min 5 chars) too short.''
           \<and> uiMessageTimer s' = UI_MESSAGE_DURATION"
proof -
  let ?t = "tick_message inp s"
  from assms(1) have inv: "invariant s" by (rule reachable_invariant)
  then have b: "box_ok (signUpUsernameInput s)" "box_ok (signUpPasswordInput s)"
      "box_ok (signUpConfirmPasswordInput s)"
    and r: "rect (signUpUsernameInput s) = Rectangle 280 200 240 40"
      "rect (signUpPasswordInput s) = Rectangle 280 270 240 40"
      "rect (signUpConfirmPasswordInput s) = Rectangle 280 340 240 40"
    by (simp_all add: invariant_def boxes_ok_def rects_ok_def)
  from assms(3) have pressed: "IsMouseButtonPressed inp"
    and y: "snd (GetMousePosition inp) \<ge> 410" "snd (GetMousePosition inp) < 460"
    by (simp_all add: clicked_def IsMouseOver_def CheckCollisionPointRec_def)
  have out: "\<not> CheckCollisionPointRec (GetMousePosition inp) (rect (signUpUsernameInput s))"
      "\<not> CheckCollisionPointRec (GetMousePosition inp) (rect (signUpPasswordInput s))"
      "\<not> CheckCollisionPointRec (GetMousePosition inp) (rect (signUpConfirmPasswordInput s))"
    using y by (simp_all add: r CheckCollisionPointRec_def)
  have noback: "\<not> clicked inp (Rectangle 320 480 160 50)"
    using y by (simp add: clicked_def IsMouseOver_def CheckCollisionPointRec_def)
  let ?off = "\<lambda>box. box\<lparr>active := False, borderColor := DARKGRAY_CUSTOM\<rparr>"
  let ?s1 = "?t\<lparr>signUpUsernameInput := ?off (signUpUsernameInput s),
                 signUpPasswordInput := ?off (signUpPasswordInput s),
                 signUpConfirmPasswordInput := ?off (signUpConfirmPasswordInput s)\<rparr>"
  have reg: "register_click inp ?s1 =
      Some (shown ''Username (min 3 chars) / Password (min 5 chars) too short.'' ?s1)"
    using assms(4)
    by (auto simp: register_click_def cstr_box [OF b(1)] cstr_box [OF b(2)] SetUIMessage_fits)
  have "frame inp s = frame_update inp s" using inv by (rule frame_eq_update)
  also have "\<dots> = update_sign_up inp ?t"
    using assms(2) by (simp add: frame_update_def Let_def)
  also have "\<dots> = Some (shown
        ''Username (min 3 chars) / Password (min 5 chars) too short.'' ?s1)"
    using assms(3) noback reg
    by (simp add: update_sign_up_def UpdateInputBox_outside [OF pressed] out Let_def screenWidth_def)
  finally show ?thesis using assms(2) by simp
qed

text \<open>What a frame with a click on BID does in a reachable state of the bid screen. A
  bid accepted over a current bid is larger than it when neither is a NaN.\<close>

lemma place_bid_click:
  assumes "reachable s" and "currentScreen s = SCREEN_PLACE_BID"
    and "clicked inp (Rectangle 280 480 100 40)"
  shows
    "(let newBid = strtof (box_text (bidAmountInput s));
          bidder = box_text (bidderNameInput s);
          item = items s ! nat (selectedItemIndex s)
      in case frame inp s of
           None \<Rightarrow>
             bidder \<noteq> [] \<and> fle newBid (currentBid item)
             \<and> 100 \<le> length (''Bid failed: $'' @ conv_2f newBid
                                @ '' is not higher than current bid $''
                                @ conv_2f (currentBid item))
         | Some s' \<Rightarrow>
             if bidder = [] \<or> fle newBid (currentBid item) \<or> fgt newBid (Finite 1000000000)
             then items s' = items s \<and> currentScreen s' = SCREEN_PLACE_BID
                  \<and> uiMessage s' \<noteq> [] \<and> uiMessageTimer s' = UI_MESSAGE_DURATION
             else items s' = (items s)[nat (selectedItemIndex s) :=
                                         item\<lparr>currentBid := newBid, highestBidder := bidder\<rparr>]
                  \<and> currentScreen s' = SCREEN_ITEM_DETAILS)"
proof -
  let ?t = "tick_message inp s"
  let ?s1 = "?t\<lparr>bidAmountInput :=
                   (bidAmountInput ?t)\<lparr>active := False, borderColor := DARKGRAY_CUSTOM\<rparr>,
                 bidderNameInput :=
                   (bidderNameInput ?t)\<lparr>active := False, borderColor := DARKGRAY_CUSTOM\<rparr>\<rparr>"
  from assms(1) have inv: "invariant s" by (rule reachable_invariant)
  then have invt: "invariant ?t" by simp
  from invt assms(2) have inv1: "invariant ?s1" and scr1: "currentScreen ?s1 = SCREEN_PLACE_BID"
    by (simp_all add: invariant_def boxes_ok_def rects_ok_def selection_ok_def box_ok_def)
  have "frame inp s = frame_update inp s" using inv by (rule frame_eq_update)
  also have "\<dots> = update_place_bid inp ?t"
    using assms(2) by (simp add: frame_update_def Let_def)
  also have "\<dots> = bid_click ?s1"
    using invt assms(3) by (rule update_place_bid_click)
  finally have eq: "frame inp s = bid_click ?s1" .
  note res = bid_click_result [OF inv1 scr1]
  show ?thesis
    unfolding eq res using assms(2)
    by (simp add: Let_def box_text_def SetUIMessage_def strcpy_def shown_def)
qed

lemma accepted_bid_larger: "\<not> fle a b \<Longrightarrow> \<not> is_nan a \<Longrightarrow> \<not> is_nan b \<Longrightarrow> fgt a b"
  by (cases a; cases b) auto

subsection \<open>Running the program on sample inputs\<close>

text \<open>The values of the library functions on the strings of the sample runs, and the
  equations with which the simplifier runs a frame.\<close>

lemma hash_secret: "HashPassword ''secret'' = 461122539"
  by code_simp

lemma strtof_nan: "strtof ''nan'' = NaN"
  by code_simp

lemma strtof_100: "strtof ''100'' = Finite 100"
  by code_simp

lemma strtof_1e9: "strtof ''1000000000'' = Finite 1000000000"
  by code_simp

lemma strtof_1e9_exp: "strtof ''1e9'' = Finite 1000000000"
  by code_simp

lemma f32_3e38:
  "f32 300000000000000000000000000000000000000 = Finite 300000000549775575777803994281145270272"
  by (simp add: f32_def binade_numeral round_even_def pow2_def floor_rat_numeral Let_def
        cong: let_weak_cong)

lemma scan_3e38:
  "scan_number isdigit 10 10 (CHR ''e'') ''3e38'' = Some 300000000000000000000000000000000000000"
  by (simp add: scan_number_def scan_exponent_def scale_def digits_val_def digit_val_def
        isdigit_def tolower_def Let_def)

lemma scan_hex_3e38: "scan_hex ''3e38'' = None"
  by (simp add: scan_hex_def)

lemma strtof_m3e38: "strtof ''-3e38'' = Finite (- 300000000549775575777803994281145270272)"
  by (simp add: strtof_def Let_def isspace_def tolower_def scan_3e38 scan_hex_3e38 f32_3e38)

lemma hash_xecret: "HashPassword ''xecret'' = 656799504"
  by code_simp

lemma conv_2f_nan: "conv_2f NaN = ''nan''"
  by code_simp

lemma conv_2f_100: "conv_2f (Finite 100) = ''100.00''"
  by code_simp

lemma conv_2f_1e9: "conv_2f (Finite 1000000000) = ''1000000000.00''"
  by code_simp

lemma conv_2f_m3e38:
  "conv_2f (Finite (- 300000000549775575777803994281145270272))
     = ''-300000000549775575777803994281145270272.00''"
  by code_simp

lemmas run_eval = Let_def f32_def binade_numeral round_even_def pow2_def floor_rat_numeral
  char_of_numeral list_update_Cons_numeral replicate_21 replicate_5 upto_0_2
  init_state_def LoadUsers_def InitAuctionData_def globals_def new_box_def
  MAX_ITEMS_def MAX_INPUT_CHARS_def MAX_USERS_def MAX_NAME_LENGTH_def MAX_BIDDER_LENGTH_def
  screenWidth_def screenHeight_def UI_MESSAGE_DURATION_def
  frame_def frame_update_def tick_message_def update_auth_menu_def update_sign_in_def
  update_sign_up_def update_item_list_def update_item_details_def update_place_bid_def
  login_click_def register_click_def bid_click_def
  draw_def draw_items_def draw_boxes_def DrawInputBox_def clicked_def IsMouseOver_def
  CheckCollisionPointRec_def UpdateInputBox_def store_text_def reset_box_def ResetInputBoxes_def
  SetUIMessage_def cstr_def strcpy_def item_at_def itemRect_def
  idle_def click_def type_at_def RegisterUser_def SaveUsers_def AuthenticateUser_def
  BLUE_HIGHLIGHT_def DARKGRAY_CUSTOM_def zero_item_def box_text_def
  hash_secret strtof_nan strtof_100 strtof_1e9 strtof_1e9_exp strtof_m3e38 hash_xecret
  conv_2f_nan conv_2f_100 conv_2f_1e9 conv_2f_m3e38

lemma reachable_from_start: "init_state f \<bind> run inps = Some s \<Longrightarrow> reachable s"
  by (auto simp: Option.bind_eq_Some_conv intro: reachable_run reachable.start)

text \<open>At a concrete input: from the start, Sign Up is pressed, \<open>ab\<close> is typed into
  the user name field, and Register is pressed.\<close>

lemma sign_up_ab_rejected:
  "\<exists>s. init_state None \<bind> run [click 400 340, type_at 400 220 ''ab''] = Some s
       \<and> reachable s \<and> currentScreen s = SCREEN_SIGN_UP
       \<and> clicked (click 400 430) (Rectangle 320 410 160 50)
       \<and> box_text (signUpUsernameInput s) = ''ab''
       \<and> (\<exists>s'. frame (click 400 430) s = Some s' \<and> currentScreen s' = SCREEN_SIGN_UP
              \<and> users s' = users s \<and> users_file s' = users_file s
              \<and> uiMessage s' = ''Username (min 3 chars) / Password (min 5 chars) too short.''
              \<and> uiMessageTimer s' = UI_MESSAGE_DURATION)"
proof -
  have "\<exists>s. init_state None \<bind> run [click 400 340, type_at 400 220 ''ab''] = Some s
          \<and> currentScreen s = SCREEN_SIGN_UP \<and> box_text (signUpUsernameInput s) = ''ab''"
    by (simp add: run_eval cong: let_weak_cong bind_weak_cong)
  then obtain s where s: "init_state None \<bind> run [click 400 340, type_at 400 220 ''ab''] = Some s"
      "currentScreen s = SCREEN_SIGN_UP" "box_text (signUpUsernameInput s) = ''ab''"
    by blast
  from s(1) have r: "reachable s" by (rule reachable_from_start)
  have c: "clicked (click 400 430) (Rectangle 320 410 160 50)"
    by (simp add: clicked_def IsMouseOver_def CheckCollisionPointRec_def click_def)
  from short_text_rejected [OF r s(2) c] s r c show ?thesis by simp
qed

text \<open>C8 at a concrete input: after signing up and in, the closed third item is
  selected and the place of the Place Bid button is clicked.\<close>

theorem C8_witness:
  "\<exists>s. init_state None \<bind> run (sign_up_and_in @ [click 400 240]) = Some s
       \<and> reachable s \<and> currentScreen s = SCREEN_ITEM_DETAILS
       \<and> (\<exists>s' item. frame (click 700 560) s = Some s'
              \<and> item_at s (selectedItemIndex s) = Some item \<and> name item = ''Vintage Guitar''
              \<and> auctionClosed item \<and> items s' = items s
              \<and> currentScreen s' = SCREEN_ITEM_DETAILS
              \<and> selectedItemIndex s' = selectedItemIndex s)"
proof -
  have "\<exists>s. init_state None \<bind> run (sign_up_and_in @ [click 400 240]) = Some s
          \<and> currentScreen s = SCREEN_ITEM_DETAILS
          \<and> (\<exists>item. item_at s (selectedItemIndex s) = Some item \<and> name item = ''Vintage Guitar''
                \<and> auctionClosed item)
          \<and> (\<exists>s'. frame (click 700 560) s = Some s' \<and> currentScreen s' = SCREEN_ITEM_DETAILS)"
    by (simp add: run_eval sign_up_and_in_def cong: let_weak_cong bind_weak_cong)
  then obtain s item t where
    s: "init_state None \<bind> run (sign_up_and_in @ [click 400 240]) = Some s"
      "currentScreen s = SCREEN_ITEM_DETAILS"
      "item_at s (selectedItemIndex s) = Some item" "name item = ''Vintage Guitar''"
      "auctionClosed item" "frame (click 700 560) s = Some t"
      "currentScreen t = SCREEN_ITEM_DETAILS"
    by blast
  from s(1) have r: "reachable s" by (rule reachable_from_start)
  from C8_closed_item_no_place_bid [OF r s(2), of "click 700 560"] s r show ?thesis by auto
qed

text \<open>C9 at a concrete input: after signing up and in, a bid of \<open>1e9\<close> on the first item
  and, on the bid screen again, the amount \<open>-3e38\<close> and a name, the selected index is 0;
  the click on BID makes the iteration undefined, and the message that does not fit has
  102 characters.\<close>

theorem C9_witness:
  "\<exists>s. init_state None
         \<bind> run (sign_up_and_in @ [click 400 120] @ bid ''1e9'' @ fill_bid ''-3e38'')
         = Some s
       \<and> reachable s \<and> currentScreen s = SCREEN_PLACE_BID
       \<and> selectedItemIndex s = 0 \<and> itemCount s = 3
       \<and> item_at s (selectedItemIndex s) \<noteq> None
       \<and> (\<forall>i \<in> set (draw_items s). item_at s i \<noteq> None)
       \<and> frame (click 340 500) s = None
       \<and> clicked (click 340 500) (Rectangle 280 480 100 40)
       \<and> (\<exists>m. TextFormat ''Bid failed: $%.2f is not higher than current bid $%.2f''
                 [ArgF (strtof (box_text (bidAmountInput s))),
                  ArgF (currentBid (items s ! nat (selectedItemIndex s)))] = Some m
              \<and> 100 \<le> length m)"
proof -
  have "\<exists>s. init_state None
         \<bind> run (sign_up_and_in @ [click 400 120] @ bid ''1e9'' @ fill_bid ''-3e38'')
         = Some s
          \<and> currentScreen s = SCREEN_PLACE_BID \<and> selectedItemIndex s = 0 \<and> itemCount s = 3
          \<and> frame (click 340 500) s = None"
    by (simp add: run_eval sign_up_and_in_def bid_def fill_bid_def
          cong: let_weak_cong bind_weak_cong)
  then obtain s where
    s: "init_state None
         \<bind> run (sign_up_and_in @ [click 400 120] @ bid ''1e9'' @ fill_bid ''-3e38'')
         = Some s"
      "currentScreen s = SCREEN_PLACE_BID" "selectedItemIndex s = 0" "itemCount s = 3"
      "frame (click 340 500) s = None"
    by blast
  from s(1) have r: "reachable s" by (rule reachable_from_start)
  from C9_selected_item_in_bounds [OF r s(2), of "click 340 500"] s r show ?thesis by auto
qed

subsection \<open>Where the program departs from its description\<close>

text \<open>
  C1. The ceiling of the bid is written \<^verbatim>\<open>999999999.0f\<close>. Binary32 numbers near it are
  64 apart, and the literal denotes 1000000000. A bid of 1000000000, which exceeds
  999,999,999, is therefore not above the ceiling tested: from the first start, after
  signing up and in and selecting the first item, it is accepted and becomes the current
  bid.
\<close>

theorem C1_bid_above_ceiling_accepted:
  "f32 999999999 = Finite 1000000000
   \<and> map_option (\<lambda>s. (currentScreen s, currentBid (items s ! 0), highestBidder (items s ! 0)))
         (init_state None \<bind> run (sign_up_and_in @ [click 400 120] @ bid ''1000000000''))
       = Some (SCREEN_ITEM_DETAILS, Finite 1000000000, ''x'')"
  by (simp add: run_eval sign_up_and_in_def bid_def cong: let_weak_cong bind_weak_cong)

text \<open>
  C2. \<^verbatim>\<open>strtof\<close> reads \<open>nan\<close> as a NaN, for which both tests of the bid
  (\<^verbatim>\<open>newBid <= currentBid\<close> and \<^verbatim>\<open>newBid > 999999999.0f\<close>) are false: the bid is
  accepted. After that every comparison with the current bid is false as well, and a bid
  of 100 on the item that started at 1500 is accepted.
\<close>

theorem C2_current_bid_decreases:
  "map_option (\<lambda>s. currentBid (items s ! 0)) (init_state None) = Some (Finite 1500)
   \<and> map_option (\<lambda>s. (currentScreen s, currentBid (items s ! 0)))
         (init_state None \<bind> run (sign_up_and_in @ [click 400 120] @ bid ''nan''))
       = Some (SCREEN_ITEM_DETAILS, NaN)
   \<and> map_option (\<lambda>s. (currentScreen s, currentBid (items s ! 0)))
         (init_state None \<bind> run (sign_up_and_in @ [click 400 120] @ bid ''nan'' @ bid ''100''))
       = Some (SCREEN_ITEM_DETAILS, Finite 100)"
  by (simp add: run_eval sign_up_and_in_def bid_def cong: let_weak_cong bind_weak_cong)

lemma utoa_hash_secret: "utoa 461122539 = ''461122539''"
  by code_simp

lemma load_bob_smith: "LoadUsers_loop 10 ''bob smith 461122539\<newline>'' = Some []"
  by code_simp

lemmas users_file_eval = SaveUsers_loop.simps utoa_hash_secret load_bob_smith

text \<open>
  C4. An input box lets the space through, so a user can sign up as \<open>bob smith\<close>. The
  line written for this user has three fields, and at the next start \<^verbatim>\<open>fscanf\<close> stops
  at its second: the store that is loaded from the saved file is empty.
\<close>

theorem C4_user_with_space_lost:
  "(init_state None
      \<bind> run [click 400 340, type_at 400 220 ''bob smith'', type_at 400 290 ''secret'',
               type_at 400 360 ''secret'', click 400 430])
      \<bind> (\<lambda>s. map_option (\<lambda>t. (users s, users_file s, users t)) (init_state (users_file s)))
   = Some ([\<lparr>username = ''bob smith'', hashedPassword = 461122539\<rparr>],
           Some ''bob smith 461122539\<newline>'', [])"
  by (simp add: run_eval users_file_eval cong: let_weak_cong bind_weak_cong)

text \<open>
  C7. The same stale bytes defeat the length check of the sign-up screen. The three
  fields are filled with \<open>bob\<close>, \<open>secret\<close> and \<open>secret\<close>, the screen is left by
  Back and entered again, and the user types \<open>bob\<close> and, into each password field, the
  one character \<open>x\<close>: the password field counts one character and shows one asterisk,
  but its text reads \<open>xecret\<close>. A click on Register then registers \<open>bob\<close> with the
  hash of \<open>xecret\<close> and moves to the sign-in screen, although the password entered is
  shorter than 5 characters.
\<close>

theorem C7_stale_password_registered:
  "map_option
     (\<lambda>s. (currentScreen s, users s, letterCount (signUpPasswordInput s),
           box_text (signUpPasswordInput s),
           map_option (\<lambda>s'. (currentScreen s', users s', uiMessage s'))
             (frame (click 400 430) s)))
     (init_state None \<bind> run retype_password)
   = Some (SCREEN_SIGN_UP, [], 1, ''xecret'',
           Some (SCREEN_SIGN_IN, [\<lparr>username = ''bob'', hashedPassword = 656799504\<rparr>],
                 ''Registration successful! Please sign in.''))"
  by (simp add: run_eval retype_password_def cong: let_weak_cong bind_weak_cong)

text \<open>
  C10. \<^verbatim>\<open>ResetInputBoxes\<close> clears the first byte of a text only, and typing a character
  stores it without a terminator behind it. After \<open>hello\<close> is typed into the user name
  field of the sign-up screen, the screen is left and entered again, and \<open>x\<close> is typed,
  the count is 1, the byte at index 1 is \<open>e\<close>, and the text read as a C string is
  \<open>xello\<close>.
\<close>

theorem C10_stale_text_after_reset:
  "map_option
     (\<lambda>s. (letterCount (signUpUsernameInput s), textbuf (signUpUsernameInput s) ! 1,
           box_text (signUpUsernameInput s)))
     (init_state None
        \<bind> run [click 400 340, type_at 400 220 ''hello'', click 400 500,
                 click 400 340, type_at 400 220 ''x''])
   = Some (1, CHR ''e'', ''xello'')"
  by (simp add: run_eval cong: let_weak_cong bind_weak_cong)

end
